theory Spec2Isabelle
  imports Complex_Main "HOL-Library.Word" "HOL-Library.Sublist"
begin

section \<open>The joint manager of the MARS simulation (sim/src/core/JointManager.cpp)\<close>

text \<open>
  A shallow embedding of \<^verbatim>\<open>mars::sim::JointManager\<close>. The manager owns two
  \<^verbatim>\<open>std::map\<close>s keyed by \<^verbatim>\<open>unsigned long\<close> (the active joints
  \<^verbatim>\<open>simJoints\<close> and the reload templates \<^verbatim>\<open>simJointsReload\<close>) and the counter
  \<^verbatim>\<open>next_joint_id\<close>. Its methods are modelled as functions on an explicit memory;
  the calls that leave the manager (mutex, physics backend, motor manager, simulator)
  are appended to a trace of events, in program order.
\<close>

subsection \<open>Data\<close>

text \<open>\<^verbatim>\<open>unsigned long\<close> on an LP64 platform: 64 bits, arithmetic wraps around.\<close>

type_synonym ulong = "64 word"

text \<open>
  \<^verbatim>\<open>sReal\<close> is a double. A finite double is modelled by the real number it stands
  for; the infinities and NaN have no value in the model. \<^verbatim>\<open>Vector\<close> is a vector of
  three such coordinates, read by \<^verbatim>\<open>x()\<close>, \<^verbatim>\<open>y()\<close>, \<^verbatim>\<open>z()\<close>. The sums and
  products of \<open>squaredNorm\<close> and of the midpoint below are those of the reals: they are
  exact where the properties proved need them (a zero vector has the squared norm 0 in
  doubles too), and no property proved here rests on their value elsewhere.
\<close>

type_synonym sReal = real

record Vector =
  vec_x :: sReal
  vec_y :: sReal
  vec_z :: sReal

definition squaredNorm :: "Vector \<Rightarrow> sReal" where
  "squaredNorm v = vec_x v * vec_x v + vec_y v * vec_y v + vec_z v * vec_z v"

definition vec_add :: "Vector \<Rightarrow> Vector \<Rightarrow> Vector" where
  "vec_add a b = \<lparr>vec_x = vec_x a + vec_x b, vec_y = vec_y a + vec_y b, vec_z = vec_z a + vec_z b\<rparr>"

definition vec_div :: "Vector \<Rightarrow> sReal \<Rightarrow> Vector" where
  "vec_div a d = \<lparr>vec_x = vec_x a / d, vec_y = vec_y a / d, vec_z = vec_z a / d\<rparr>"

text \<open>
  Modelled from the spec: the header that declares \<^verbatim>\<open>JointData\<close>, \<^verbatim>\<open>JointType\<close> and
  \<^verbatim>\<open>AnchorPos\<close> is not among the sources. The spec's JointDescriptor gives the variants
  (hinge, hinge2, slider, fixed, ball, universal; anchor at body A, at body B, midpoint,
  explicit) and the fields; the names are the ones JointManager.cpp uses.
\<close>

datatype JointType =
    JOINT_TYPE_UNDEFINED
  | JOINT_TYPE_HINGE
  | JOINT_TYPE_HINGE2
  | JOINT_TYPE_SLIDER
  | JOINT_TYPE_BALL
  | JOINT_TYPE_UNIVERSAL
  | JOINT_TYPE_FIXED

datatype AnchorPos = ANCHOR_NODE1 | ANCHOR_NODE2 | ANCHOR_CENTER | ANCHOR_CUSTOM

record JointData =
  index :: ulong
  name :: string
  type :: JointType
  nodeIndex1 :: ulong
  nodeIndex2 :: ulong
  anchorPos :: AnchorPos
  anchor :: Vector
  axis1 :: Vector
  axis2 :: Vector
  angle1_offset :: sReal

text \<open>
  Modelled from the spec: \<^verbatim>\<open>SimNode\<close> and the node manager are not among the sources.
  The spec's BodyLookup resolves an index to a position and a backend handle, or to
  nothing; \<^verbatim>\<open>getSimNode\<close> returns a null pointer for nothing.
\<close>

type_synonym NodeInterface = nat

record SimNode =
  position :: Vector
  interface :: NodeInterface

definition getPosition :: "SimNode \<Rightarrow> Vector" where
  "getPosition n = position n"

definition getInterface :: "SimNode \<Rightarrow> NodeInterface" where
  "getInterface n = interface n"

text \<open>
  Modelled from the spec: \<^verbatim>\<open>SimJoint\<close> is not among the sources. A record embeds a
  snapshot of the descriptor (the copy \<^verbatim>\<open>*jointS\<close> taken by the constructor) and the
  two attached nodes; \<^verbatim>\<open>getNodeIndex1\<close> and \<^verbatim>\<open>getNodeIndex2\<close> read the attached
  body indices of the snapshot.
\<close>

record SimJoint =
  sJoint :: JointData
  attached1 :: "SimNode option"
  attached2 :: "SimNode option"

definition getNodeIndex1 :: "SimJoint \<Rightarrow> ulong" where
  "getNodeIndex1 j = nodeIndex1 (sJoint j)"

definition getNodeIndex2 :: "SimJoint \<Rightarrow> ulong" where
  "getNodeIndex2 j = nodeIndex2 (sJoint j)"

text \<open>
  The collaborators reached through \<^verbatim>\<open>control\<close>, as one call of the manager sees them:
  the node manager's lookup, and the verdict of the physics backend's
  \<^verbatim>\<open>JointInterface::createJoint\<close> on the resolved descriptor and the two optional
  body handles. \<^verbatim>\<open>EPSILON\<close> (utils/mathUtils.h, not among the sources) is a parameter.
\<close>

record ControlCenter =
  getSimNode :: "ulong \<Rightarrow> SimNode option"
  createJoint :: "JointData \<Rightarrow> NodeInterface option \<Rightarrow> NodeInterface option \<Rightarrow> bool"
  EPSILON :: sReal

subsection \<open>std::map as a list of entries in ascending key order\<close>

type_synonym 'v stdmap = "(ulong \<times> 'v) list"

text \<open>\<^verbatim>\<open>m.find(k)\<close>: the entry's value, or nothing for \<^verbatim>\<open>m.end()\<close>.\<close>

definition map_find :: "ulong \<Rightarrow> 'v stdmap \<Rightarrow> 'v option" where
  "map_find k m = map_of m k"

text \<open>\<^verbatim>\<open>m[k] = v\<close>: overwrite the entry of \<open>k\<close>, or insert one at its place in key order.\<close>

fun map_assign :: "ulong \<Rightarrow> 'v \<Rightarrow> 'v stdmap \<Rightarrow> 'v stdmap" where
  "map_assign k v [] = [(k, v)]"
| "map_assign k v ((k', v') # m) =
     (if k < k' then (k, v) # (k', v') # m
      else if k = k' then (k, v) # m
      else (k', v') # map_assign k v m)"

text \<open>\<^verbatim>\<open>m.erase(m.find(k))\<close>: remove the one entry the iterator points to.\<close>

fun map_erase :: "ulong \<Rightarrow> 'v stdmap \<Rightarrow> 'v stdmap" where
  "map_erase k [] = []"
| "map_erase k ((k', v') # m) = (if k = k' then m else (k', v') # map_erase k m)"

text \<open>A write through an iterator's \<^verbatim>\<open>second\<close>: the entry keeps its key and place.\<close>

fun map_modify :: "ulong \<Rightarrow> ('v \<Rightarrow> 'v) \<Rightarrow> 'v stdmap \<Rightarrow> 'v stdmap" where
  "map_modify k f [] = []"
| "map_modify k f ((k', v') # m) =
     (if k = k' then (k', f v') # m else (k', v') # map_modify k f m)"

definition keys :: "'v stdmap \<Rightarrow> ulong list" where
  "keys m = map fst m"

text \<open>The representation invariant of a \<^verbatim>\<open>std::map\<close>: keys strictly ascending.\<close>

definition ordered :: "'v stdmap \<Rightarrow> bool" where
  "ordered m = sorted_wrt (<) (keys m)"

subsection \<open>Memory and trace\<close>

datatype event =
    Lock
  | Unlock
  | PhysicsCreateJoint bool
  | RemoveJointFromMotors ulong
  | SceneHasChanged bool

text \<open>
  The memory the methods work on: the manager's three members, the descriptor object a
  caller owns and passes by pointer, and the trace. \<^verbatim>\<open>iMutex.lock()\<close>,
  \<^verbatim>\<open>iMutex.unlock()\<close> and the constructor and destructor of a \<^verbatim>\<open>MutexLocker\<close>
  are the events \<open>Lock\<close> and \<open>Unlock\<close>.
\<close>

record memory =
  simJoints :: "SimJoint stdmap"
  simJointsReload :: "JointData stdmap"
  next_joint_id :: ulong
  caller_joint :: JointData
  trace :: "event list"

definition emit :: "event \<Rightarrow> memory \<Rightarrow> memory" where
  "emit e m = m\<lparr>trace := trace m @ [e]\<rparr>"

text \<open>
  A \<^verbatim>\<open>JointData *\<close>: either the caller's object, or the template stored under a key of
  \<^verbatim>\<open>simJointsReload\<close> (\<^verbatim>\<open>&(iter->second)\<close> in \<^verbatim>\<open>reloadJoints\<close>).
\<close>

datatype JointDataPtr = Caller | Template ulong

definition deref :: "JointDataPtr \<Rightarrow> memory \<Rightarrow> JointData option" where
  "deref p m = (case p of Caller \<Rightarrow> Some (caller_joint m)
                | Template k \<Rightarrow> map_find k (simJointsReload m))"

definition modify :: "JointDataPtr \<Rightarrow> (JointData \<Rightarrow> JointData) \<Rightarrow> memory \<Rightarrow> memory" where
  "modify p f m = (case p of Caller \<Rightarrow> m\<lparr>caller_joint := f (caller_joint m)\<rparr>
                  | Template k \<Rightarrow> m\<lparr>simJointsReload := map_modify k f (simJointsReload m)\<rparr>)"

text \<open>The constructor: \<^verbatim>\<open>next_joint_id = 1\<close>, both maps empty.\<close>

definition JointManager :: "JointData \<Rightarrow> memory" where
  "JointManager d = \<lparr>simJoints = [], simJointsReload = [], next_joint_id = 1,
                     caller_joint = d, trace = []\<rparr>"

subsection \<open>addJoint\<close>

text \<open>
  A call either returns an \<^verbatim>\<open>unsigned long\<close> or does not return: a failed
  \<^verbatim>\<open>assert\<close> aborts the process (the assertions are taken as compiled in), and a
  pointer to no object cannot be read. The interface object that
  \<^verbatim>\<open>newJointPhysics\<close> allocates and the \<^verbatim>\<open>else\<close> branch deletes, and the lines
  written to the log, leave no mark on the memory. The backend's \<^verbatim>\<open>createJoint\<close>
  reads the descriptor it is passed and answers; it is taken not to write to it.
\<close>

datatype error = AssertNode1 | AssertNode2 | BadPointer

text \<open>Lines 73 to 77: the template is stored under the descriptor's own index.\<close>

definition store_template :: "JointDataPtr \<Rightarrow> bool \<Rightarrow> memory \<Rightarrow> memory" where
  "store_template p reload m =
     (if \<not> reload then
        (case deref p m of
           None \<Rightarrow> m
         | Some d \<Rightarrow>
             emit Unlock
               ((emit Lock m)\<lparr>simJointsReload := map_assign (index d) d (simJointsReload m)\<rparr>))
      else m)"

text \<open>Lines 97 to 107: the anchor policy, with its assertions; no branch for a custom anchor.\<close>

definition resolve_anchor ::
  "JointData \<Rightarrow> SimNode option \<Rightarrow> SimNode option \<Rightarrow> error + Vector" where
  "resolve_anchor d node1 node2 =
     (if anchorPos d = ANCHOR_NODE1 then
        (case node1 of None \<Rightarrow> Inl AssertNode1 | Some n1 \<Rightarrow> Inr (getPosition n1))
      else if anchorPos d = ANCHOR_NODE2 then
        (case node2 of None \<Rightarrow> Inl AssertNode2 | Some n2 \<Rightarrow> Inr (getPosition n2))
      else if anchorPos d = ANCHOR_CENTER then
        (case node1 of
           None \<Rightarrow> Inl AssertNode1
         | Some n1 \<Rightarrow>
             (case node2 of
                None \<Rightarrow> Inl AssertNode2
              | Some n2 \<Rightarrow> Inr (vec_div (vec_add (getPosition n1) (getPosition n2)) 2)))
      else Inr (anchor d))"

text \<open>Lines 112 to 123: the branch taken when the backend has created the joint.\<close>

definition register_joint ::
  "JointDataPtr \<Rightarrow> SimNode option \<Rightarrow> SimNode option \<Rightarrow> memory \<Rightarrow> (error + ulong) \<times> memory" where
  "register_joint p node1 node2 m =
     (let m1 = emit Lock m;
          m2 = modify p (\<lambda>d. d\<lparr>index := next_joint_id m1\<rparr>) m1;
          m3 = m2\<lparr>next_joint_id := next_joint_id m2 + 1\<rparr>
      in case deref p m3 of
           None \<Rightarrow> (Inl BadPointer, m3)
         | Some d \<Rightarrow>
             (let newJoint = \<lparr>sJoint = d, attached1 = node1, attached2 = node2\<rparr>;
                  m4 = m3\<lparr>simJoints := map_assign (index d) newJoint (simJoints m3)\<rparr>;
                  m5 = emit Unlock m4;
                  m6 = emit (SceneHasChanged False) m5
              in case deref p m6 of
                   None \<Rightarrow> (Inl BadPointer, m6)
                 | Some d' \<Rightarrow> (Inr (index d'), m6)))"

definition addJoint ::
  "ControlCenter \<Rightarrow> JointDataPtr \<Rightarrow> bool \<Rightarrow> memory \<Rightarrow> (error + ulong) \<times> memory" where
  "addJoint control p reload m =
     (case deref p m of
        None \<Rightarrow> (Inl BadPointer, m)
      | Some d0 \<Rightarrow>
          (let m1 = store_template p reload m in
           case deref p m1 of
             None \<Rightarrow> (Inl BadPointer, m1)
           | Some d \<Rightarrow>
               if squaredNorm (axis1 d) < EPSILON control \<and> type d \<noteq> JOINT_TYPE_FIXED
               then (Inr 0, m1)
               else
                 (let node1 = getSimNode control (nodeIndex1 d);
                      i_node1 = map_option getInterface node1;
                      node2 = getSimNode control (nodeIndex2 d);
                      i_node2 = map_option getInterface node2
                  in case resolve_anchor d node1 node2 of
                       Inl e \<Rightarrow> (Inl e, m1)
                     | Inr an \<Rightarrow>
                         (let m2 = modify p (\<lambda>d. d\<lparr>anchor := an\<rparr>) m1 in
                          case deref p m2 of
                            None \<Rightarrow> (Inl BadPointer, m2)
                          | Some d2 \<Rightarrow>
                              (let ok = createJoint control d2 i_node1 i_node2;
                                   m3 = emit (PhysicsCreateJoint ok) m2
                               in if ok then register_joint p node1 node2 m3
                                  else (Inr 0, m3))))))"

subsection \<open>Queries and removal\<close>

text \<open>\<^verbatim>\<open>simJoints.size()\<close>, returned as an \<^verbatim>\<open>int\<close>, under a \<^verbatim>\<open>MutexLocker\<close>.\<close>

definition getJointCount :: "memory \<Rightarrow> int \<times> memory" where
  "getJointCount m =
     (let m1 = emit Lock m;
          n = sint (word_of_nat (length (simJoints m1)) :: 32 word)
      in (n, emit Unlock m1))"

text \<open>
  Lines 183 to 198. The \<^verbatim>\<open>MutexLocker\<close> is a local of the whole function body: it
  unlocks when the function returns, after both outbound calls.
\<close>

definition removeJoint :: "ulong \<Rightarrow> memory \<Rightarrow> memory" where
  "removeJoint idx m =
     (let m1 = emit Lock m;
          m2 = (case map_find idx (simJoints m1) of
                  None \<Rightarrow> m1
                | Some tmpJoint \<Rightarrow> m1\<lparr>simJoints := map_erase idx (simJoints m1)\<rparr>);
          m3 = emit (RemoveJointFromMotors idx) m2;
          m4 = emit (SceneHasChanged False) m3
      in emit Unlock m4)"

text \<open>The loop of lines 204 to 210: the key of the first entry attached to the pair.\<close>

fun find_by_ids :: "ulong \<Rightarrow> ulong \<Rightarrow> SimJoint stdmap \<Rightarrow> ulong option" where
  "find_by_ids id1 id2 [] = None"
| "find_by_ids id1 id2 ((k, j) # rest) =
     (if (getNodeIndex1 j = id1 \<and> getNodeIndex2 j = id2) \<or>
         (getNodeIndex1 j = id2 \<and> getNodeIndex2 j = id1)
      then Some k
      else find_by_ids id1 id2 rest)"

definition removeJointByIDs :: "ulong \<Rightarrow> ulong \<Rightarrow> memory \<Rightarrow> memory" where
  "removeJointByIDs id1 id2 m =
     (let m1 = emit Lock m in
      case find_by_ids id1 id2 (simJoints m1) of
        Some k \<Rightarrow> removeJoint k (emit Unlock m1)
      | None \<Rightarrow> emit Unlock m1)"

subsection \<open>Reload and clear\<close>

text \<open>
  Lines 245 to 250: every stored template is passed to \<^verbatim>\<open>addJoint\<close> by its address
  in the map, with \<^verbatim>\<open>reload = true\<close>; the returned ids are dropped. The loop walks
  the keys in ascending order; a failed assertion ends it. The keys are read once, at
  the start: with \<^verbatim>\<open>reload = true\<close> a call of \<^verbatim>\<open>addJoint\<close> inserts and erases no
  template (\<open>keys_addJoint_reload\<close> below), so the iterator meets these keys and no
  other.
\<close>

fun reload_loop :: "ControlCenter \<Rightarrow> ulong list \<Rightarrow> memory \<Rightarrow> (error + unit) \<times> memory" where
  "reload_loop control [] m = (Inr (), m)"
| "reload_loop control (k # ks) m =
     (case addJoint control (Template k) True m of
        (Inl e, m') \<Rightarrow> (Inl e, m')
      | (Inr r, m') \<Rightarrow> reload_loop control ks m')"

definition reloadJoints :: "ControlCenter \<Rightarrow> memory \<Rightarrow> (error + unit) \<times> memory" where
  "reloadJoints control m = reload_loop control (keys (simJointsReload m)) m"

text \<open>The \<^verbatim>\<open>while\<close> loop of lines 266 to 270.\<close>

function clear_loop :: "memory \<Rightarrow> memory" where
  "clear_loop m =
     (case simJoints m of
        [] \<Rightarrow> m
      | (k, j) # rest \<Rightarrow> clear_loop ((emit (RemoveJointFromMotors k) m)\<lparr>simJoints := rest\<rparr>))"
  by pat_completeness auto
termination
  by (relation "measure (\<lambda>m. length (simJoints m))") (auto simp: emit_def)

declare clear_loop.simps [simp del]

definition clearAllJoints :: "bool \<Rightarrow> memory \<Rightarrow> memory" where
  "clearAllJoints clear_all m =
     (let m1 = emit Lock m;
          m2 = (if clear_all then m1\<lparr>simJointsReload := []\<rparr> else m1);
          m3 = clear_loop m2;
          m4 = emit (SceneHasChanged False) m3;
          m5 = m4\<lparr>next_joint_id := 1\<rparr>
      in emit Unlock m5)"

subsection \<open>Edits of the reload templates\<close>

definition setReloadJointOffset :: "ulong \<Rightarrow> sReal \<Rightarrow> memory \<Rightarrow> memory" where
  "setReloadJointOffset k offset m =
     emit Unlock ((emit Lock m)\<lparr>simJointsReload :=
        map_modify k (\<lambda>d. d\<lparr>angle1_offset := offset\<rparr>) (simJointsReload m)\<rparr>)"

definition setReloadJointAxis :: "ulong \<Rightarrow> Vector \<Rightarrow> memory \<Rightarrow> memory" where
  "setReloadJointAxis k axis m =
     emit Unlock ((emit Lock m)\<lparr>simJointsReload :=
        map_modify k (\<lambda>d. d\<lparr>axis1 := axis\<rparr>) (simJointsReload m)\<rparr>)"

definition setReloadAnchor :: "ulong \<Rightarrow> Vector \<Rightarrow> memory \<Rightarrow> memory" where
  "setReloadAnchor k an m =
     emit Unlock ((emit Lock m)\<lparr>simJointsReload :=
        map_modify k (\<lambda>d. d\<lparr>anchor := an\<rparr>) (simJointsReload m)\<rparr>)"

text \<open>
  Lines 291 to 300: the three coordinates of each template's anchor, in place. The
  operator \<^verbatim>\<open>*=\<close> multiplies two doubles as the machine does: the product is rounded
  to a double and can overflow. The model does not compute it: the machine's product is
  the parameter \<open>mul\<close>, and nothing is assumed of it.
\<close>

definition scale_anchor ::
  "(sReal \<Rightarrow> sReal \<Rightarrow> sReal) \<Rightarrow> sReal \<Rightarrow> sReal \<Rightarrow> sReal \<Rightarrow> JointData \<Rightarrow> JointData" where
  "scale_anchor mul x_factor y_factor z_factor d =
     d\<lparr>anchor := \<lparr>vec_x = mul (vec_x (anchor d)) x_factor,
                   vec_y = mul (vec_y (anchor d)) y_factor,
                   vec_z = mul (vec_z (anchor d)) z_factor\<rparr>\<rparr>"

fun scale_loop ::
  "(sReal \<Rightarrow> sReal \<Rightarrow> sReal) \<Rightarrow> sReal \<Rightarrow> sReal \<Rightarrow> sReal \<Rightarrow> JointData stdmap \<Rightarrow>
   JointData stdmap" where
  "scale_loop mul x_factor y_factor z_factor [] = []"
| "scale_loop mul x_factor y_factor z_factor ((k, d) # rest) =
     (k, scale_anchor mul x_factor y_factor z_factor d) #
     scale_loop mul x_factor y_factor z_factor rest"

definition scaleReloadJoints ::
  "(sReal \<Rightarrow> sReal \<Rightarrow> sReal) \<Rightarrow> sReal \<Rightarrow> sReal \<Rightarrow> sReal \<Rightarrow> memory \<Rightarrow> memory" where
  "scaleReloadJoints mul x_factor y_factor z_factor m =
     emit Unlock ((emit Lock m)\<lparr>simJointsReload :=
        scale_loop mul x_factor y_factor z_factor (simJointsReload m)\<rparr>)"

subsection \<open>Observing a call\<close>

text \<open>The events a call appends: the trace after it, without the trace before it.\<close>

definition new_events :: "memory \<Rightarrow> memory \<Rightarrow> event list" where
  "new_events m m' = drop (length (trace m)) (trace m')"

text \<open>How many joints the backend has created between two memories.\<close>

definition created :: "memory \<Rightarrow> memory \<Rightarrow> nat" where
  "created m m' = count_list (new_events m m') (PhysicsCreateJoint True)"

text \<open>
  The calls to the motor manager and to the simulator that a trace makes while the
  mutex is held, and those it makes while the mutex is free; the flag says whether the
  mutex is held where the trace starts.
\<close>

fun locked_calls :: "bool \<Rightarrow> event list \<Rightarrow> event list" where
  "locked_calls held [] = []"
| "locked_calls held (Lock # es) = locked_calls True es"
| "locked_calls held (Unlock # es) = locked_calls False es"
| "locked_calls held (PhysicsCreateJoint b # es) = locked_calls held es"
| "locked_calls held (e # es) = (if held then e # locked_calls held es else locked_calls held es)"

fun unlocked_calls :: "bool \<Rightarrow> event list \<Rightarrow> event list" where
  "unlocked_calls held [] = []"
| "unlocked_calls held (Lock # es) = unlocked_calls True es"
| "unlocked_calls held (Unlock # es) = unlocked_calls False es"
| "unlocked_calls held (PhysicsCreateJoint b # es) = unlocked_calls held es"
| "unlocked_calls held (e # es) = (if held then unlocked_calls held es else e # unlocked_calls held es)"

text \<open>Whether the mutex is held where a trace ends.\<close>

fun held_after :: "bool \<Rightarrow> event list \<Rightarrow> bool" where
  "held_after held [] = held"
| "held_after held (Lock # es) = held_after True es"
| "held_after held (Unlock # es) = held_after False es"
| "held_after held (e # es) = held_after held es"

text \<open>The condition of lines 205 and 206: the joint is attached to the pair, in either order.\<close>

definition attached_to :: "ulong \<Rightarrow> ulong \<Rightarrow> SimJoint \<Rightarrow> bool" where
  "attached_to id1 id2 j =
     ((getNodeIndex1 j = id1 \<and> getNodeIndex2 j = id2) \<or>
      (getNodeIndex1 j = id2 \<and> getNodeIndex2 j = id1))"

text \<open>
  From one memory to a later one the trace has only grown, and the counter has advanced
  (modulo \<open>2 ^ 64\<close>) by the number of joints the backend has created in between.
\<close>

definition advances :: "memory \<Rightarrow> memory \<Rightarrow> bool" where
  "advances m m' =
     (prefix (trace m) (trace m') \<and>
      next_joint_id m' = next_joint_id m + word_of_nat (created m m'))"

text \<open>
  Every key of \<^verbatim>\<open>simJoints\<close> at the later memory is a key at the earlier one or an id
  issued in between: the counter of the earlier memory plus \<open>i\<close>, for an \<open>i\<close> below the
  number of joints the backend has created in between.
\<close>

definition keeps_keys :: "memory \<Rightarrow> memory \<Rightarrow> bool" where
  "keeps_keys m m' =
     (\<forall>k \<in> set (keys (simJoints m')).
        k \<in> set (keys (simJoints m)) \<or>
        (\<exists>i < created m m'. k = next_joint_id m + word_of_nat i))"

subsection \<open>A client: sequences of calls\<close>

text \<open>
  The calls of the public interface that change the manager's members. A client's
  \<^verbatim>\<open>addJoint\<close> passes a descriptor object of its own; every call meets the
  collaborators as they are at that moment, and a rescaling meets the machine's product.
\<close>

datatype op =
    AddJoint ControlCenter JointData bool
  | RemoveJoint ulong
  | RemoveJointByIDs ulong ulong
  | ReloadJoints ControlCenter
  | ClearAllJoints bool
  | SetReloadJointOffset ulong sReal
  | SetReloadJointAxis ulong Vector
  | SetReloadAnchor ulong Vector
  | ScaleReloadJoints "sReal \<Rightarrow> sReal \<Rightarrow> sReal" sReal sReal sReal
  | GetJointCount

fun exec :: "op \<Rightarrow> memory \<Rightarrow> (error + unit) \<times> memory" where
  "exec (AddJoint control d reload) m =
     (case addJoint control Caller reload (m\<lparr>caller_joint := d\<rparr>) of
        (Inl e, m') \<Rightarrow> (Inl e, m')
      | (Inr r, m') \<Rightarrow> (Inr (), m'))"
| "exec (RemoveJoint idx) m = (Inr (), removeJoint idx m)"
| "exec (RemoveJointByIDs id1 id2) m = (Inr (), removeJointByIDs id1 id2 m)"
| "exec (ReloadJoints control) m = reloadJoints control m"
| "exec (ClearAllJoints clear_all) m = (Inr (), clearAllJoints clear_all m)"
| "exec (SetReloadJointOffset k offset) m = (Inr (), setReloadJointOffset k offset m)"
| "exec (SetReloadJointAxis k axis) m = (Inr (), setReloadJointAxis k axis m)"
| "exec (SetReloadAnchor k an) m = (Inr (), setReloadAnchor k an m)"
| "exec (ScaleReloadJoints mul x_factor y_factor z_factor) m =
     (Inr (), scaleReloadJoints mul x_factor y_factor z_factor m)"
| "exec GetJointCount m = (Inr (), snd (getJointCount m))"

fun run :: "op list \<Rightarrow> memory \<Rightarrow> (error + unit) \<times> memory" where
  "run [] m = (Inr (), m)"
| "run (c # cs) m =
     (case exec c m of
        (Inl e, m') \<Rightarrow> (Inl e, m')
      | (Inr u, m') \<Rightarrow> run cs m')"

fun is_clear :: "op \<Rightarrow> bool" where
  "is_clear (ClearAllJoints clear_all) = True"
| "is_clear c = False"

definition clear_free :: "op list \<Rightarrow> bool" where
  "clear_free cs = (filter is_clear cs = [])"

text \<open>The calls of a sequence that come after its last \<^verbatim>\<open>clearAllJoints\<close>.\<close>

fun since_clear :: "op list \<Rightarrow> op list" where
  "since_clear [] = []"
| "since_clear (c # cs) =
     (if clear_free cs then (if is_clear c then cs else c # cs) else since_clear cs)"

text \<open>
  \<open>n\<close> rounds of a client that has a joint created from its descriptor object (as a
  reload, so that no template is stored) and removes it again; a failed assertion ends
  the rounds.
\<close>

fun churn :: "nat \<Rightarrow> ControlCenter \<Rightarrow> memory \<Rightarrow> memory" where
  "churn 0 control m = m"
| "churn (Suc n) control m =
     (case addJoint control Caller True m of
        (Inl e, m') \<Rightarrow> m'
      | (Inr r, m') \<Rightarrow> churn n control (removeJoint r m'))"

subsection \<open>Example values\<close>

definition origin :: Vector where
  "origin = \<lparr>vec_x = 0, vec_y = 0, vec_z = 0\<rparr>"

definition z_axis :: Vector where
  "z_axis = \<lparr>vec_x = 0, vec_y = 0, vec_z = 1\<rparr>"

definition body3 :: SimNode where
  "body3 = \<lparr>position = \<lparr>vec_x = 1, vec_y = 2, vec_z = 3\<rparr>, interface = 3\<rparr>"

text \<open>A world with the one body 3 at (1, 2, 3), and a backend that accepts or refuses everything.\<close>

definition world :: "bool \<Rightarrow> ControlCenter" where
  "world ok = \<lparr>getSimNode = (\<lambda>i. if i = 3 then Some body3 else None),
               createJoint = (\<lambda>d n1 n2. ok),
               EPSILON = 1 / 1000000\<rparr>"

text \<open>The hinge of the spec's example: body 3 to the environment, anchored at body 3.\<close>

definition hinge :: JointData where
  "hinge = \<lparr>index = 7, name = ''hinge'', type = JOINT_TYPE_HINGE, nodeIndex1 = 3,
            nodeIndex2 = 0, anchorPos = ANCHOR_NODE1, anchor = origin, axis1 = z_axis,
            axis2 = origin, angle1_offset = 0\<rparr>"

definition weld :: JointData where
  "weld = \<lparr>index = 9, name = ''weld'', type = JOINT_TYPE_FIXED, nodeIndex1 = 3,
           nodeIndex2 = 0, anchorPos = ANCHOR_CUSTOM, anchor = origin, axis1 = origin,
           axis2 = origin, angle1_offset = 0\<rparr>"

text \<open>A manager after one and after two successful \<^verbatim>\<open>addJoint\<close> calls on the hinge.\<close>

definition one_joint :: memory where
  "one_joint = snd (addJoint (world True) Caller False (JointManager hinge))"

definition two_joints :: memory where
  "two_joints = snd (addJoint (world True) Caller False one_joint)"

definition joint_no :: "ulong \<Rightarrow> SimJoint" where
  "joint_no i = \<lparr>sJoint = hinge\<lparr>index := i, anchor := position body3\<rparr>,
                 attached1 = Some body3, attached2 = None\<rparr>"

text \<open>A descriptor without the two fields a successful \<^verbatim>\<open>addJoint\<close> writes.\<close>

definition unresolved :: "JointData \<Rightarrow> JointData" where
  "unresolved d = d\<lparr>index := 0, anchor := origin\<rparr>"

text \<open>
  Two stored templates (keys 1 and 7) and no active joint: the state before a reload, and
  the state after the replay of the first template.
\<close>

definition cleared :: memory where
  "cleared = clearAllJoints False two_joints"

definition replayed_first :: memory where
  "replayed_first = snd (addJoint (world True) (Template 1) True cleared)"

text \<open>
  The product of two doubles where it is exact, as it is on the small whole numbers of
  the examples.
\<close>

definition exact_product :: "sReal \<Rightarrow> sReal \<Rightarrow> sReal" where
  "exact_product a b = a * b"

text \<open>
  Calls that create nothing: a removal, an \<^verbatim>\<open>addJoint\<close> the backend refuses, a
  rescaling of the templates.
\<close>

definition idle_calls :: "op list" where
  "idle_calls = [RemoveJoint 1, AddJoint (world False) hinge False,
                 ScaleReloadJoints exact_product 2 1 1]"

section \<open>Basic facts\<close>

subsection \<open>The map\<close>

lemma map_find_Nil [simp]: "map_find k [] = None"
  by (simp add: map_find_def)

lemma map_find_Cons [simp]:
  "map_find k ((k', v) # m) = (if k = k' then Some v else map_find k m)"
  by (simp add: map_find_def)

lemma map_find_assign [simp]: "map_find k (map_assign k v m) = Some v"
  by (induction m) auto

lemma map_find_assign_other: "k' \<noteq> k \<Longrightarrow> map_find k' (map_assign k v m) = map_find k' m"
  by (induction m) auto

lemma map_find_modify [simp]:
  "map_find k' (map_modify k f m) =
     (if k' = k then map_option f (map_find k m) else map_find k' m)"
  by (induction m) auto

lemma keys_modify [simp]: "keys (map_modify k f m) = keys m"
  by (induction m) (auto simp: keys_def)

lemma map_find_keys: "(map_find k m \<noteq> None) = (k \<in> set (keys m))"
  by (induction m) (auto simp: keys_def)

lemma keys_assign: "set (keys (map_assign k v l)) = insert k (set (keys l))"
proof (induction l)
  case Nil
  then show ?case by (simp add: keys_def)
next
  case (Cons e l)
  obtain k' v' where e: "e = (k', v')" by (cases e)
  show ?case
    using Cons by (auto simp: e keys_def)
qed

lemma ordered_Nil [simp]: "ordered []"
  by (simp add: ordered_def keys_def)

lemma ordered_Cons:
  "ordered ((k, v) # m) = ((\<forall>k' \<in> set (keys m). k < k') \<and> ordered m)"
  by (simp add: ordered_def keys_def)

lemma map_find_absent: "k \<notin> set (keys m) \<Longrightarrow> map_find k m = None"
  using map_find_keys [of k m] by simp

lemma map_erase_absent: "k \<notin> set (keys m) \<Longrightarrow> map_erase k m = m"
  by (induction m) (auto simp: keys_def)

lemma keys_erase_subset: "set (keys (map_erase k m)) \<subseteq> set (keys m)"
proof (induction m)
  case Nil
  then show ?case by simp
next
  case (Cons e m)
  obtain k' v' where e: "e = (k', v')" by (cases e)
  show ?case
    using Cons by (auto simp: e keys_def)
qed

lemma ordered_erase: "ordered m \<Longrightarrow> ordered (map_erase k m)"
proof (induction m)
  case Nil
  then show ?case by simp
next
  case (Cons e m)
  obtain k' v' where e: "e = (k', v')" by (cases e)
  show ?case
    using Cons keys_erase_subset [of k m] by (auto simp: e ordered_Cons)
qed

lemma erase_removes_key: "ordered m \<Longrightarrow> k \<notin> set (keys (map_erase k m))"
proof (induction m)
  case Nil
  then show ?case by (simp add: keys_def)
next
  case (Cons e m)
  obtain k' v' where e: "e = (k', v')" by (cases e)
  show ?case
    using Cons by (auto simp: e ordered_Cons keys_def)
qed

lemma ordered_append_key:
  "ordered (pre @ (k, j) # post) \<Longrightarrow> k \<notin> set (keys pre)"
  by (auto simp: ordered_def keys_def sorted_wrt_append)

lemma map_erase_middle:
  "k \<notin> set (keys pre) \<Longrightarrow> map_erase k (pre @ (k, j) # post) = pre @ post"
  by (induction pre) (auto simp: keys_def)

subsection \<open>Memory, pointers and traces\<close>

lemma emit_fields [simp]:
  "simJoints (emit e m) = simJoints m"
  "simJointsReload (emit e m) = simJointsReload m"
  "next_joint_id (emit e m) = next_joint_id m"
  "caller_joint (emit e m) = caller_joint m"
  "trace (emit e m) = trace m @ [e]"
  by (simp_all add: emit_def)

lemma modify_fields [simp]:
  "simJoints (modify p f m) = simJoints m"
  "next_joint_id (modify p f m) = next_joint_id m"
  "trace (modify p f m) = trace m"
  by (simp_all add: modify_def split: JointDataPtr.splits)

lemma new_events_append [simp]: "trace m' = trace m @ evs \<Longrightarrow> new_events m m' = evs"
  by (simp add: new_events_def)

lemma store_template_fields [simp]:
  "simJoints (store_template p reload m) = simJoints m"
  "next_joint_id (store_template p reload m) = next_joint_id m"
  "caller_joint (store_template p reload m) = caller_joint m"
  by (simp_all add: store_template_def split: option.splits)

lemma deref_store_template:
  assumes d: "deref p m = Some d"
  shows "deref p (store_template p reload m) = Some d"
proof (cases p)
  case Caller
  then show ?thesis using d by (simp add: deref_def store_template_def)
next
  case (Template k)
  have "map_find k (map_assign (index d) d (simJointsReload m)) = Some d"
  proof (cases "k = index d")
    case True
    then show ?thesis by simp
  next
    case False
    then show ?thesis using d Template by (simp add: map_find_assign_other deref_def)
  qed
  then show ?thesis using d Template by (simp add: deref_def store_template_def)
qed

lemma trace_store_template:
  "trace (store_template p reload m) =
     trace m @ (if \<not> reload \<and> deref p m \<noteq> None then [Lock, Unlock] else [])"
  by (auto simp: store_template_def split: option.splits)

lemma deref_modify:
  "deref p m = Some d \<Longrightarrow> deref p (modify p f m) = Some (f d)"
  by (cases p) (auto simp: deref_def modify_def)

lemma new_events_compose:
  assumes "prefix (trace m) (trace m1)" and "prefix (trace m1) (trace m2)"
  shows "new_events m m2 = new_events m m1 @ new_events m1 m2"
  using assms by (auto simp: prefix_def new_events_def)

lemma created_compose:
  assumes "prefix (trace m) (trace m1)" and "prefix (trace m1) (trace m2)"
  shows "created m m2 = created m m1 + created m1 m2"
  by (simp add: created_def new_events_compose [OF assms])

lemma advances_refl [simp]: "advances m m"
  by (simp add: advances_def created_def new_events_def)

lemma advances_trans:
  assumes "advances m m1" and "advances m1 m2"
  shows "advances m m2"
proof -
  have p: "prefix (trace m) (trace m1)" "prefix (trace m1) (trace m2)"
    using assms by (simp_all add: advances_def)
  then have "prefix (trace m) (trace m2)"
    by (rule prefix_order.order_trans)
  then show ?thesis
    using assms by (simp add: advances_def created_compose [OF p])
qed

lemma advancesI:
  assumes "trace m' = trace m @ evs"
    and "next_joint_id m' = next_joint_id m + word_of_nat (count_list evs (PhysicsCreateJoint True))"
  shows "advances m m'"
  using assms by (simp add: advances_def created_def)

lemma locked_calls_append:
  "locked_calls h (a @ b) = locked_calls h a @ locked_calls (held_after h a) b"
  by (induction h a rule: locked_calls.induct) auto

lemma unlocked_calls_append:
  "unlocked_calls h (a @ b) = unlocked_calls h a @ unlocked_calls (held_after h a) b"
  by (induction h a rule: unlocked_calls.induct) auto

lemma held_after_append: "held_after h (a @ b) = held_after (held_after h a) b"
  by (induction h a rule: held_after.induct) auto

lemma calls_of_removals [simp]:
  "locked_calls h (map RemoveJointFromMotors ks) = (if h then map RemoveJointFromMotors ks else [])"
  "unlocked_calls h (map RemoveJointFromMotors ks) = (if h then [] else map RemoveJointFromMotors ks)"
  "held_after h (map RemoveJointFromMotors ks) = h"
  "count_list (map RemoveJointFromMotors ks) (PhysicsCreateJoint b) = 0"
  by (induction ks) auto

subsection \<open>The branches of addJoint\<close>

lemma resolve_anchor_missing:
  assumes "(anchorPos d = ANCHOR_NODE1 \<and> node1 = None) \<or>
           (anchorPos d = ANCHOR_NODE2 \<and> node2 = None) \<or>
           (anchorPos d = ANCHOR_CENTER \<and> (node1 = None \<or> node2 = None))"
  shows "resolve_anchor d node1 node2 = Inl AssertNode1 \<or>
         resolve_anchor d node1 node2 = Inl AssertNode2"
  using assms by (auto simp: resolve_anchor_def split: option.splits)

lemma register_joint_ok:
  assumes "deref p m3 = Some d3"
  shows "register_joint p n1 n2 m3 =
     (Inr (next_joint_id m3),
      emit (SceneHasChanged False) (emit Unlock
        ((modify p (\<lambda>d. d\<lparr>index := next_joint_id m3\<rparr>) (emit Lock m3))
           \<lparr>next_joint_id := next_joint_id m3 + 1,
            simJoints := map_assign (next_joint_id m3)
               \<lparr>sJoint = d3\<lparr>index := next_joint_id m3\<rparr>, attached1 = n1, attached2 = n2\<rparr>
               (simJoints m3)\<rparr>)))"
  using assms
  by (cases p) (simp_all add: register_joint_def Let_def deref_def modify_def emit_def)

lemma addJoint_bad_pointer:
  "deref p m = None \<Longrightarrow> addJoint control p reload m = (Inl BadPointer, m)"
  by (simp add: addJoint_def)

lemma addJoint_cases [consumes 1, case_names axis assert refused created]:
  assumes d: "deref p m = Some d"
  obtains
    (axis) "squaredNorm (axis1 d) < EPSILON control" "type d \<noteq> JOINT_TYPE_FIXED"
      "addJoint control p reload m = (Inr 0, store_template p reload m)"
  | (assert) e where "addJoint control p reload m = (Inl e, store_template p reload m)"
  | (refused) an where
      "addJoint control p reload m =
         (Inr 0, emit (PhysicsCreateJoint False)
                   (modify p (\<lambda>d. d\<lparr>anchor := an\<rparr>) (store_template p reload m)))"
  | (created) an where
      "addJoint control p reload m =
         register_joint p (getSimNode control (nodeIndex1 d)) (getSimNode control (nodeIndex2 d))
           (emit (PhysicsCreateJoint True)
              (modify p (\<lambda>d. d\<lparr>anchor := an\<rparr>) (store_template p reload m)))"
      "deref p (emit (PhysicsCreateJoint True)
         (modify p (\<lambda>d. d\<lparr>anchor := an\<rparr>) (store_template p reload m))) = Some (d\<lparr>anchor := an\<rparr>)"
proof -
  let ?m1 = "store_template p reload m"
  have d1: "deref p ?m1 = Some d"
    using d by (rule deref_store_template)
  show thesis
  proof (cases "squaredNorm (axis1 d) < EPSILON control \<and> type d \<noteq> JOINT_TYPE_FIXED")
    case True
    then have "addJoint control p reload m = (Inr 0, ?m1)"
      using d d1 by (simp add: addJoint_def Let_def)
    with True show thesis by (intro axis) simp_all
  next
    case valid: False
    show thesis
    proof (cases "resolve_anchor d (getSimNode control (nodeIndex1 d))
                    (getSimNode control (nodeIndex2 d))")
      case (Inl e)
      then have "addJoint control p reload m = (Inl e, ?m1)"
        using d d1 valid by (auto simp: addJoint_def Let_def)
      then show thesis by (rule assert)
    next
      case (Inr an)
      let ?m2 = "modify p (\<lambda>d. d\<lparr>anchor := an\<rparr>) ?m1"
      have d2: "deref p ?m2 = Some (d\<lparr>anchor := an\<rparr>)"
        using d1 by (rule deref_modify)
      show thesis
      proof (cases "createJoint control (d\<lparr>anchor := an\<rparr>)
                      (map_option getInterface (getSimNode control (nodeIndex1 d)))
                      (map_option getInterface (getSimNode control (nodeIndex2 d)))")
        case False
        then have "addJoint control p reload m = (Inr 0, emit (PhysicsCreateJoint False) ?m2)"
          using d d1 d2 valid Inr by (auto simp: addJoint_def Let_def)
        then show thesis by (rule refused)
      next
        case True
        then have "addJoint control p reload m =
           register_joint p (getSimNode control (nodeIndex1 d)) (getSimNode control (nodeIndex2 d))
             (emit (PhysicsCreateJoint True) ?m2)"
          using d d1 d2 valid Inr by (auto simp: addJoint_def Let_def)
        moreover have "deref p (emit (PhysicsCreateJoint True) ?m2) = Some (d\<lparr>anchor := an\<rparr>)"
          using d2 by (cases p) (simp_all add: deref_def)
        ultimately show thesis by (rule created)
      qed
    qed
  qed
qed

lemma addJoint_summary:
  "\<exists>evs. trace (snd (addJoint control p reload m)) = trace m @ evs \<and>
         locked_calls False evs = [] \<and>
         count_list evs (PhysicsCreateJoint True) =
           (if PhysicsCreateJoint True \<in> set evs then 1 else 0) \<and>
         next_joint_id (snd (addJoint control p reload m)) =
           next_joint_id m + (if PhysicsCreateJoint True \<in> set evs then 1 else 0) \<and>
         unlocked_calls False evs =
           (if PhysicsCreateJoint True \<in> set evs then [SceneHasChanged False] else []) \<and>
         (\<forall>v. fst (addJoint control p reload m) = Inr v \<longrightarrow>
              v = (if PhysicsCreateJoint True \<in> set evs then next_joint_id m else 0) \<and>
              held_after False evs = False)"
proof (cases "deref p m")
  case None
  show ?thesis
    by (rule exI [of _ "[]"]) (simp add: addJoint_bad_pointer [OF None])
next
  case (Some d)
  let ?pre = "if \<not> reload then [Lock, Unlock] else []"
  have pre: "trace (store_template p reload m) = trace m @ ?pre"
    using Some by (simp add: trace_store_template)
  from Some show ?thesis
  proof (cases rule: addJoint_cases [where control = control and reload = reload])
    case axis
    show ?thesis
      by (rule exI [of _ ?pre]) (simp add: axis pre)
  next
    case (assert e)
    show ?thesis
      by (rule exI [of _ ?pre]) (simp add: assert pre)
  next
    case (refused an)
    show ?thesis
      by (rule exI [of _ "?pre @ [PhysicsCreateJoint False]"]) (simp add: refused pre)
  next
    case (created an)
    show ?thesis
      by (rule exI [of _ "?pre @ [PhysicsCreateJoint True, Lock, Unlock, SceneHasChanged False]"])
         (simp add: created(1) register_joint_ok [OF created(2)] pre)
  qed
qed

lemma addJoint_unlocked:
  "\<exists>evs. trace (snd (addJoint control p reload m)) = trace m @ evs \<and>
         held_after False evs = False"
proof (cases "deref p m")
  case None
  show ?thesis
    by (rule exI [of _ "[]"]) (simp add: addJoint_bad_pointer [OF None])
next
  case (Some d)
  let ?pre = "if \<not> reload then [Lock, Unlock] else []"
  have pre: "trace (store_template p reload m) = trace m @ ?pre"
    using Some by (simp add: trace_store_template)
  from Some show ?thesis
  proof (cases rule: addJoint_cases [where control = control and reload = reload])
    case axis
    show ?thesis
      by (rule exI [of _ ?pre]) (simp add: axis pre)
  next
    case (assert e)
    show ?thesis
      by (rule exI [of _ ?pre]) (simp add: assert pre)
  next
    case (refused an)
    show ?thesis
      by (rule exI [of _ "?pre @ [PhysicsCreateJoint False]"]) (simp add: refused pre)
  next
    case (created an)
    show ?thesis
      by (rule exI [of _ "?pre @ [PhysicsCreateJoint True, Lock, Unlock, SceneHasChanged False]"])
         (simp add: created(1) register_joint_ok [OF created(2)] pre)
  qed
qed

lemma addJoint_simJoints:
  "\<exists>evs. trace (snd (addJoint control p reload m)) = trace m @ evs \<and>
     (if PhysicsCreateJoint True \<in> set evs
      then \<exists>j. simJoints (snd (addJoint control p reload m)) =
                  map_assign (next_joint_id m) j (simJoints m)
      else simJoints (snd (addJoint control p reload m)) = simJoints m) \<and>
     \<not> (PhysicsCreateJoint True \<in> set evs \<and> PhysicsCreateJoint False \<in> set evs) \<and>
     (\<forall>v. fst (addJoint control p reload m) = Inr v \<and> PhysicsCreateJoint False \<notin> set evs \<and>
           PhysicsCreateJoint True \<notin> set evs \<longrightarrow>
           (\<exists>d. deref p m = Some d \<and> squaredNorm (axis1 d) < EPSILON control \<and>
                type d \<noteq> JOINT_TYPE_FIXED))"
proof (cases "deref p m")
  case None
  show ?thesis
    by (rule exI [of _ "[]"]) (simp add: addJoint_bad_pointer [OF None])
next
  case (Some d)
  let ?pre = "if \<not> reload then [Lock, Unlock] else []"
  have pre: "trace (store_template p reload m) = trace m @ ?pre"
    using Some by (simp add: trace_store_template)
  from Some show ?thesis
  proof (cases rule: addJoint_cases [where control = control and reload = reload])
    case axis
    show ?thesis
      by (rule exI [of _ ?pre]) (use Some in \<open>simp add: axis pre\<close>)
  next
    case (assert e)
    show ?thesis
      by (rule exI [of _ ?pre]) (simp add: assert pre)
  next
    case (refused an)
    show ?thesis
      by (rule exI [of _ "?pre @ [PhysicsCreateJoint False]"]) (simp add: refused pre)
  next
    case (created an)
    show ?thesis
      by (rule exI [of _ "?pre @ [PhysicsCreateJoint True, Lock, Unlock, SceneHasChanged False]"])
         (simp add: created(1) register_joint_ok [OF created(2)] pre, blast)
  qed
qed

lemma addJoint_advances: "advances m (snd (addJoint control p reload m))"
proof -
  obtain evs where "trace (snd (addJoint control p reload m)) = trace m @ evs"
    "count_list evs (PhysicsCreateJoint True) =
       (if PhysicsCreateJoint True \<in> set evs then 1 else 0)"
    "next_joint_id (snd (addJoint control p reload m)) =
       next_joint_id m + (if PhysicsCreateJoint True \<in> set evs then 1 else 0)"
    using addJoint_summary [of control p reload m] by auto
  then show ?thesis
    by (intro advancesI [where evs = evs]) simp_all
qed

lemma addJoint_success:
  assumes "addJoint control p reload m = (Inr r, m')"
    and "PhysicsCreateJoint True \<in> set (new_events m m')"
  shows "r = next_joint_id m" and "next_joint_id m' = next_joint_id m + 1"
    and "created m m' = 1" and "prefix (trace m) (trace m')"
proof -
  obtain evs where evs: "trace m' = trace m @ evs"
    "count_list evs (PhysicsCreateJoint True) =
       (if PhysicsCreateJoint True \<in> set evs then 1 else 0)"
    "next_joint_id m' = next_joint_id m + (if PhysicsCreateJoint True \<in> set evs then 1 else 0)"
    "r = (if PhysicsCreateJoint True \<in> set evs then next_joint_id m else 0)"
    using addJoint_summary [of control p reload m] assms(1) by auto
  have "PhysicsCreateJoint True \<in> set evs"
    using assms(2) evs(1) by simp
  then show "r = next_joint_id m" and "next_joint_id m' = next_joint_id m + 1"
    and "created m m' = 1" and "prefix (trace m) (trace m')"
    using evs by (simp_all add: created_def)
qed

lemma keys_addJoint_reload:
  "keys (simJointsReload (snd (addJoint control p True m))) = keys (simJointsReload m)"
  unfolding addJoint_def register_joint_def Let_def
  by (auto simp: store_template_def modify_def split: option.splits sum.splits JointDataPtr.splits)

lemma unresolved_modify:
  assumes "\<And>d. unresolved (f d) = unresolved d"
  shows "map (\<lambda>(k, d). (k, unresolved d)) (map_modify k f l) = map (\<lambda>(k, d). (k, unresolved d)) l"
  using assms by (induction l) auto

lemma unresolved_update [simp]:
  "unresolved (anchor_update g d) = unresolved d"
  "unresolved (index_update h d) = unresolved d"
  by (simp_all add: unresolved_def)

lemma unresolved_addJoint_reload:
  "map (\<lambda>(k, d). (k, unresolved d)) (simJointsReload (snd (addJoint control p True m))) =
   map (\<lambda>(k, d). (k, unresolved d)) (simJointsReload m)"
  unfolding addJoint_def register_joint_def Let_def
  by (auto simp: store_template_def modify_def unresolved_modify
           split: option.splits sum.splits JointDataPtr.splits)

lemma addJoint_replay_success:
  assumes "map_find k (simJointsReload m1) = Some t"
    and "addJoint control (Template k) True m1 = (Inr r, m2)"
    and "PhysicsCreateJoint True \<in> set (new_events m1 m2)"
  shows "\<exists>an. resolve_anchor t (getSimNode control (nodeIndex1 t))
                 (getSimNode control (nodeIndex2 t)) = Inr an \<and>
              map_find k (simJointsReload m2) = Some (t\<lparr>anchor := an, index := next_joint_id m1\<rparr>) \<and>
              r = next_joint_id m1 \<and>
              map_find r (simJoints m2) =
                Some \<lparr>sJoint = t\<lparr>anchor := an, index := next_joint_id m1\<rparr>,
                      attached1 = getSimNode control (nodeIndex1 t),
                      attached2 = getSimNode control (nodeIndex2 t)\<rparr>"
  using assms
  unfolding addJoint_def register_joint_def new_events_def Let_def
  by (auto simp: store_template_def deref_def modify_def
           split: option.splits sum.splits if_splits)

subsection \<open>Queries and removal\<close>

lemma getJointCount_fst: "fst (getJointCount m) = sint (word_of_nat (length (simJoints m)) :: 32 word)"
  by (simp add: getJointCount_def Let_def)

lemma simJoints_removeJoint: "simJoints (removeJoint k m) = map_erase k (simJoints m)"
  by (cases "map_find k (simJoints m)")
     (simp_all add: removeJoint_def Let_def map_erase_absent map_find_keys [symmetric])

lemma removeJoint_fields [simp]:
  "simJointsReload (removeJoint k m) = simJointsReload m"
  "next_joint_id (removeJoint k m) = next_joint_id m"
  "caller_joint (removeJoint k m) = caller_joint m"
  "trace (removeJoint k m) =
     trace m @ [Lock, RemoveJointFromMotors k, SceneHasChanged False, Unlock]"
  by (simp_all add: removeJoint_def Let_def split: option.splits)

lemma find_by_ids_first:
  assumes "\<forall>e \<in> set pre. \<not> attached_to id1 id2 (snd e)" and "attached_to id1 id2 j"
  shows "find_by_ids id1 id2 (pre @ (k, j) # post) = Some k"
  using assms by (induction pre) (auto simp: attached_to_def)

lemma find_by_ids_none:
  assumes "\<forall>e \<in> set l. \<not> attached_to id1 id2 (snd e)"
  shows "find_by_ids id1 id2 l = None"
  using assms by (induction l) (auto simp: attached_to_def)

lemma removeJointByIDs_other_fields [simp]:
  "simJointsReload (removeJointByIDs id1 id2 m) = simJointsReload m"
  "next_joint_id (removeJointByIDs id1 id2 m) = next_joint_id m"
  "caller_joint (removeJointByIDs id1 id2 m) = caller_joint m"
  by (simp_all add: removeJointByIDs_def Let_def split: option.splits)

lemma simJoints_removeJointByIDs:
  "simJoints (removeJointByIDs id1 id2 m) =
     (case find_by_ids id1 id2 (simJoints m) of
        None \<Rightarrow> simJoints m
      | Some k \<Rightarrow> map_erase k (simJoints m))"
  by (simp add: removeJointByIDs_def Let_def simJoints_removeJoint split: option.splits)

lemma trace_removeJointByIDs:
  "trace (removeJointByIDs id1 id2 m) =
     trace m @ [Lock, Unlock] @
       (case find_by_ids id1 id2 (simJoints m) of
          None \<Rightarrow> []
        | Some k \<Rightarrow> [Lock, RemoveJointFromMotors k, SceneHasChanged False, Unlock])"
  by (simp add: removeJointByIDs_def Let_def split: option.splits)

subsection \<open>Reload, clear and the templates\<close>

lemma reload_loop_keys:
  "keys (simJointsReload (snd (reload_loop control ks m))) = keys (simJointsReload m)"
proof (induction ks arbitrary: m)
  case Nil
  then show ?case by simp
next
  case (Cons k ks)
  obtain r m1 where step: "addJoint control (Template k) True m = (r, m1)"
    by (cases "addJoint control (Template k) True m")
  have k1: "keys (simJointsReload m1) = keys (simJointsReload m)"
    using keys_addJoint_reload [of control "Template k" m] by (simp add: step)
  show ?case
  proof (cases r)
    case (Inl e)
    then show ?thesis by (simp add: step k1)
  next
    case (Inr v)
    then show ?thesis using Cons [of m1] by (simp add: step k1)
  qed
qed

lemma reload_loop_unresolved:
  "map (\<lambda>(k, d). (k, unresolved d)) (simJointsReload (snd (reload_loop control ks m))) =
   map (\<lambda>(k, d). (k, unresolved d)) (simJointsReload m)"
proof (induction ks arbitrary: m)
  case Nil
  then show ?case by simp
next
  case (Cons k ks)
  obtain r m1 where step: "addJoint control (Template k) True m = (r, m1)"
    by (cases "addJoint control (Template k) True m")
  have k1: "map (\<lambda>(k, d). (k, unresolved d)) (simJointsReload m1) =
            map (\<lambda>(k, d). (k, unresolved d)) (simJointsReload m)"
    using unresolved_addJoint_reload [of control "Template k" m] by (simp add: step)
  show ?case
  proof (cases r)
    case (Inl e)
    then show ?thesis by (simp add: step k1)
  next
    case (Inr v)
    then show ?thesis using Cons [of m1] by (simp add: step k1)
  qed
qed

lemma reload_loop_append:
  "reload_loop control (ks1 @ ks2) m =
     (case reload_loop control ks1 m of
        (Inl e, m1) \<Rightarrow> (Inl e, m1)
      | (Inr u, m1) \<Rightarrow> reload_loop control ks2 m1)"
  by (induction ks1 arbitrary: m) (auto split: prod.splits sum.splits)

lemma reload_loop_events:
  "\<exists>evs. trace (snd (reload_loop control ks m)) = trace m @ evs \<and>
         locked_calls False evs = [] \<and>
         next_joint_id (snd (reload_loop control ks m)) =
           next_joint_id m + word_of_nat (count_list evs (PhysicsCreateJoint True))"
proof (induction ks arbitrary: m)
  case Nil
  show ?case by (rule exI [of _ "[]"]) simp
next
  case (Cons k ks)
  obtain r m1 where step: "addJoint control (Template k) True m = (r, m1)"
    by (cases "addJoint control (Template k) True m")
  obtain evs where evs: "trace m1 = trace m @ evs" "locked_calls False evs = []"
    "count_list evs (PhysicsCreateJoint True) =
       (if PhysicsCreateJoint True \<in> set evs then 1 else 0)"
    "next_joint_id m1 = next_joint_id m + (if PhysicsCreateJoint True \<in> set evs then 1 else 0)"
    "\<forall>v. r = Inr v \<longrightarrow> held_after False evs = False"
    using addJoint_summary [of control "Template k" True m] by (auto simp: step)
  have adv: "next_joint_id m1 =
      next_joint_id m + word_of_nat (count_list evs (PhysicsCreateJoint True))"
    using evs(3,4) by simp
  show ?case
  proof (cases r)
    case (Inl e)
    show ?thesis
      by (rule exI [of _ evs]) (simp add: step Inl evs adv)
  next
    case (Inr v)
    obtain evs' where evs': "trace (snd (reload_loop control ks m1)) = trace m1 @ evs'"
      "locked_calls False evs' = []"
      "next_joint_id (snd (reload_loop control ks m1)) =
         next_joint_id m1 + word_of_nat (count_list evs' (PhysicsCreateJoint True))"
      using Cons [of m1] by auto
    have free: "held_after False evs = False"
      using evs(5) Inr by simp
    show ?thesis
      by (rule exI [of _ "evs @ evs'"])
         (simp add: step Inr evs evs' adv locked_calls_append free)
  qed
qed

lemma reload_loop_unlocked:
  "\<exists>evs. trace (snd (reload_loop control ks m)) = trace m @ evs \<and>
         held_after False evs = False"
proof (induction ks arbitrary: m)
  case Nil
  show ?case by (rule exI [of _ "[]"]) simp
next
  case (Cons k ks)
  obtain r m1 where step: "addJoint control (Template k) True m = (r, m1)"
    by (cases "addJoint control (Template k) True m")
  obtain evs where evs: "trace m1 = trace m @ evs" "held_after False evs = False"
    using addJoint_unlocked [of control "Template k" True m] by (auto simp: step)
  show ?case
  proof (cases r)
    case (Inl e)
    show ?thesis
      by (rule exI [of _ evs]) (simp add: step Inl evs)
  next
    case (Inr v)
    obtain evs' where evs': "trace (snd (reload_loop control ks m1)) = trace m1 @ evs'"
      "held_after False evs' = False"
      using Cons [of m1] by auto
    show ?thesis
      by (rule exI [of _ "evs @ evs'"]) (simp add: step Inr evs evs' held_after_append)
  qed
qed

lemma clear_loop_Nil [simp]: "simJoints m = [] \<Longrightarrow> clear_loop m = m"
  by (simp add: clear_loop.simps)

lemma clear_loop_Cons:
  "simJoints m = (k, j) # rest \<Longrightarrow>
     clear_loop m = clear_loop ((emit (RemoveJointFromMotors k) m)\<lparr>simJoints := rest\<rparr>)"
  by (subst clear_loop.simps) simp

lemma clear_loop_eq:
  "clear_loop m =
     m\<lparr>simJoints := [], trace := trace m @ map RemoveJointFromMotors (keys (simJoints m))\<rparr>"
proof (induction m rule: clear_loop.induct)
  case (1 m)
  show ?case
  proof (cases "simJoints m")
    case Nil
    then show ?thesis by (simp add: keys_def)
  next
    case (Cons e rest)
    obtain k j where e: "e = (k, j)" by (cases e)
    show ?thesis
      using "1.IH" [OF Cons [unfolded e] refl] Cons
      by (simp add: e clear_loop_Cons keys_def emit_def)
  qed
qed

lemma clearAllJoints_fields [simp]:
  "simJoints (clearAllJoints clear_all m) = []"
  "simJointsReload (clearAllJoints clear_all m) = (if clear_all then [] else simJointsReload m)"
  "next_joint_id (clearAllJoints clear_all m) = 1"
  "caller_joint (clearAllJoints clear_all m) = caller_joint m"
  "trace (clearAllJoints clear_all m) =
     trace m @ [Lock] @ map RemoveJointFromMotors (keys (simJoints m)) @
       [SceneHasChanged False, Unlock]"
  by (simp_all add: clearAllJoints_def Let_def clear_loop_eq)

lemma trace_template_edits [simp]:
  "trace (setReloadJointOffset k offset m) = trace m @ [Lock, Unlock]"
  "trace (setReloadJointAxis k axis m) = trace m @ [Lock, Unlock]"
  "trace (setReloadAnchor k an m) = trace m @ [Lock, Unlock]"
  "trace (scaleReloadJoints mul sx sy sz m) = trace m @ [Lock, Unlock]"
  "trace (snd (getJointCount m)) = trace m @ [Lock, Unlock]"
  "next_joint_id (setReloadJointOffset k offset m) = next_joint_id m"
  "next_joint_id (setReloadJointAxis k axis m) = next_joint_id m"
  "next_joint_id (setReloadAnchor k an m) = next_joint_id m"
  "next_joint_id (scaleReloadJoints mul sx sy sz m) = next_joint_id m"
  "next_joint_id (snd (getJointCount m)) = next_joint_id m"
  by (simp_all add: setReloadJointOffset_def setReloadJointAxis_def setReloadAnchor_def
        scaleReloadJoints_def getJointCount_def Let_def)

lemma scale_loop_map:
  "scale_loop mul sx sy sz l = map (\<lambda>(k, d). (k, scale_anchor mul sx sy sz d)) l"
  by (induction l) auto

lemma scaleReloadJoints_frame:
  "simJointsReload (scaleReloadJoints mul sx sy sz m) =
     map (\<lambda>(k, d). (k, d\<lparr>anchor := \<lparr>vec_x = mul (vec_x (anchor d)) sx,
                                     vec_y = mul (vec_y (anchor d)) sy,
                                     vec_z = mul (vec_z (anchor d)) sz\<rparr>\<rparr>)) (simJointsReload m) \<and>
   keys (simJointsReload (scaleReloadJoints mul sx sy sz m)) = keys (simJointsReload m) \<and>
   simJoints (scaleReloadJoints mul sx sy sz m) = simJoints m \<and>
   next_joint_id (scaleReloadJoints mul sx sy sz m) = next_joint_id m"
  by (simp add: scaleReloadJoints_def scale_loop_map scale_anchor_def keys_def split_def comp_def)

subsection \<open>Sequences of calls\<close>

lemma snd_exec_AddJoint:
  "snd (exec (AddJoint control d reload) m) =
     snd (addJoint control Caller reload (m\<lparr>caller_joint := d\<rparr>))"
  by (simp split: prod.splits sum.splits)

lemma advances_caller:
  "advances (m\<lparr>caller_joint := d\<rparr>) m' = advances m m'"
  by (simp add: advances_def created_def new_events_def)

lemma exec_advances:
  assumes "\<not> is_clear c"
  shows "advances m (snd (exec c m))"
proof (cases c)
  case (AddJoint control d reload)
  show ?thesis
    using addJoint_advances [of "m\<lparr>caller_joint := d\<rparr>" control Caller reload]
    by (simp only: AddJoint snd_exec_AddJoint advances_caller)
next
  case (ReloadJoints control)
  obtain evs where "trace (snd (reloadJoints control m)) = trace m @ evs"
    "next_joint_id (snd (reloadJoints control m)) =
       next_joint_id m + word_of_nat (count_list evs (PhysicsCreateJoint True))"
    using reload_loop_events [of control "keys (simJointsReload m)" m]
    by (auto simp: reloadJoints_def)
  then show ?thesis
    by (simp add: ReloadJoints advancesI)
next
  case (ClearAllJoints clear_all)
  then show ?thesis using assms by simp
next
  case (RemoveJoint k)
  show ?thesis
    by (simp add: RemoveJoint advancesI [where evs = "[Lock, RemoveJointFromMotors k, SceneHasChanged False, Unlock]"])
next
  case (RemoveJointByIDs id1 id2)
  show ?thesis
    unfolding RemoveJointByIDs
    by (simp, rule advancesI [OF trace_removeJointByIDs]) (simp split: option.splits)
qed (simp_all add: advancesI [where evs = "[Lock, Unlock]"])

lemma clear_free_Cons [simp]: "clear_free (c # cs) = (\<not> is_clear c \<and> clear_free cs)"
  by (simp add: clear_free_def)

lemma clear_free_Nil [simp]: "clear_free []"
  by (simp add: clear_free_def)

lemma run_advances:
  "clear_free cs \<Longrightarrow> advances m (snd (run cs m))"
proof (induction cs arbitrary: m)
  case Nil
  then show ?case by simp
next
  case (Cons c cs)
  obtain r m1 where step: "exec c m = (r, m1)"
    by (cases "exec c m")
  have a1: "advances m m1"
    using exec_advances [of c m] Cons.prems by (simp add: step)
  show ?case
  proof (cases r)
    case (Inl e)
    then show ?thesis using a1 by (simp add: step)
  next
    case (Inr u)
    have "advances m1 (snd (run cs m1))"
      using Cons by simp
    then have "advances m (snd (run cs m1))"
      using a1 by (rule advances_trans [rotated])
    then show ?thesis
      by (simp add: step Inr)
  qed
qed

lemma word_advance_less:
  fixes a :: ulong
  assumes "0 < k" and "unat a + k < 2 ^ 64"
  shows "a < a + word_of_nat k"
proof -
  have "unat (a + word_of_nat k) = unat a + k"
    using assms by (simp add: unat_word_ariths unat_of_nat)
  then show ?thesis
    using assms(1) by (simp add: word_less_nat_alt)
qed

lemma word_nonzero_ge_1:
  fixes r :: ulong
  shows "r \<noteq> 0 \<Longrightarrow> 1 \<le> r"
  by (simp add: word_le_nat_alt unat_eq_zero Suc_leI unat_gt_0)

lemma counter_nonzero:
  fixes c :: nat
  assumes "c < 2 ^ 64 - 1"
  shows "(1 :: ulong) + word_of_nat c \<noteq> 0"
proof -
  have "unat ((1 :: ulong) + word_of_nat c) = 1 + c"
    using assms by (simp add: unat_word_ariths unat_of_nat)
  then show ?thesis
    by (metis add_is_0 unat_0 zero_neq_one)
qed

subsection \<open>The keys are ids that were issued\<close>

lemma keeps_keysI:
  assumes "set (keys (simJoints m')) \<subseteq> set (keys (simJoints m))"
  shows "keeps_keys m m'"
  using assms by (auto simp: keeps_keys_def)

lemma keeps_keys_trans:
  assumes a1: "advances m m1" and k1: "keeps_keys m m1"
    and a2: "advances m1 m2" and k2: "keeps_keys m1 m2"
  shows "keeps_keys m m2"
proof -
  have p: "prefix (trace m) (trace m1)" "prefix (trace m1) (trace m2)"
    using a1 a2 by (simp_all add: advances_def)
  have c: "created m m2 = created m m1 + created m1 m2"
    by (rule created_compose [OF p])
  have n1: "next_joint_id m1 = next_joint_id m + word_of_nat (created m m1)"
    using a1 by (simp add: advances_def)
  show ?thesis
    unfolding keeps_keys_def
  proof
    fix k
    assume "k \<in> set (keys (simJoints m2))"
    then consider "k \<in> set (keys (simJoints m1))"
      | i where "i < created m1 m2" "k = next_joint_id m1 + word_of_nat i"
      using k2 by (auto simp: keeps_keys_def)
    then show "k \<in> set (keys (simJoints m)) \<or>
        (\<exists>i < created m m2. k = next_joint_id m + word_of_nat i)"
    proof cases
      case 1
      then consider "k \<in> set (keys (simJoints m))"
        | i where "i < created m m1" "k = next_joint_id m + word_of_nat i"
        using k1 by (auto simp: keeps_keys_def)
      then show ?thesis
      proof cases
        case 1
        then show ?thesis by simp
      next
        case (2 i)
        then have "i < created m m2" using c by simp
        then show ?thesis using 2(2) by blast
      qed
    next
      case (2 i)
      have "created m m1 + i < created m m2"
        using 2(1) c by simp
      moreover have "k = next_joint_id m + word_of_nat (created m m1 + i)"
        using 2(2) n1 by simp
      ultimately show ?thesis by blast
    qed
  qed
qed

lemma addJoint_keeps_keys: "keeps_keys m (snd (addJoint control p reload m))"
proof -
  let ?m' = "snd (addJoint control p reload m)"
  obtain evs where evs: "trace ?m' = trace m @ evs"
    "count_list evs (PhysicsCreateJoint True) =
       (if PhysicsCreateJoint True \<in> set evs then 1 else 0)"
    using addJoint_summary [of control p reload m] by auto
  obtain evs' where evs': "trace ?m' = trace m @ evs'"
    "if PhysicsCreateJoint True \<in> set evs'
      then \<exists>j. simJoints ?m' = map_assign (next_joint_id m) j (simJoints m)
      else simJoints ?m' = simJoints m"
    using addJoint_simJoints [of control p reload m] by blast
  have same: "evs' = evs"
    using evs(1) evs'(1) by simp
  show ?thesis
  proof (cases "PhysicsCreateJoint True \<in> set evs")
    case True
    then obtain j where j: "simJoints ?m' = map_assign (next_joint_id m) j (simJoints m)"
      using evs'(2) same by auto
    have "created m ?m' = 1"
      using True evs by (simp add: created_def)
    then show ?thesis
      by (auto simp: keeps_keys_def j keys_assign)
  next
    case False
    then have "simJoints ?m' = simJoints m"
      using evs'(2) same by simp
    then show ?thesis
      by (simp add: keeps_keysI)
  qed
qed

lemma reload_loop_advances: "advances m (snd (reload_loop control ks m))"
proof -
  obtain evs where "trace (snd (reload_loop control ks m)) = trace m @ evs"
    "next_joint_id (snd (reload_loop control ks m)) =
       next_joint_id m + word_of_nat (count_list evs (PhysicsCreateJoint True))"
    using reload_loop_events [of control ks m] by auto
  then show ?thesis
    by (rule advancesI)
qed

lemma reload_loop_keeps_keys: "keeps_keys m (snd (reload_loop control ks m))"
proof (induction ks arbitrary: m)
  case Nil
  show ?case by (simp add: keeps_keysI)
next
  case (Cons k ks)
  obtain r m1 where step: "addJoint control (Template k) True m = (r, m1)"
    by (cases "addJoint control (Template k) True m")
  have a1: "advances m m1" and k1: "keeps_keys m m1"
    using addJoint_advances [of m control "Template k" True]
      addJoint_keeps_keys [of m control "Template k" True]
    by (simp_all add: step)
  show ?case
  proof (cases r)
    case (Inl e)
    then show ?thesis using k1 by (simp add: step)
  next
    case (Inr v)
    have "keeps_keys m (snd (reload_loop control ks m1))"
      using a1 k1 reload_loop_advances Cons by (rule keeps_keys_trans)
    then show ?thesis by (simp add: step Inr)
  qed
qed

lemma keeps_keys_caller:
  "keeps_keys (m\<lparr>caller_joint := d\<rparr>) m' = keeps_keys m m'"
  by (simp add: keeps_keys_def created_def new_events_def)

lemma exec_keeps_keys: "keeps_keys m (snd (exec c m))"
proof (cases c)
  case (AddJoint control d reload)
  show ?thesis
    using addJoint_keeps_keys [of "m\<lparr>caller_joint := d\<rparr>" control Caller reload]
    by (simp only: AddJoint snd_exec_AddJoint keeps_keys_caller)
next
  case (ReloadJoints control)
  show ?thesis
    using reload_loop_keeps_keys by (simp add: ReloadJoints reloadJoints_def)
next
  case (RemoveJoint k)
  show ?thesis
    by (rule keeps_keysI) (simp add: RemoveJoint simJoints_removeJoint keys_erase_subset)
next
  case (RemoveJointByIDs id1 id2)
  show ?thesis
    by (rule keeps_keysI)
       (simp add: RemoveJointByIDs simJoints_removeJointByIDs keys_erase_subset
             split: option.splits)
next
  case (ClearAllJoints clear_all)
  show ?thesis
    by (rule keeps_keysI) (simp add: ClearAllJoints keys_def)
next
  case (SetReloadJointOffset k offset)
  show ?thesis
    by (rule keeps_keysI) (simp add: SetReloadJointOffset setReloadJointOffset_def)
next
  case (SetReloadJointAxis k axis)
  show ?thesis
    by (rule keeps_keysI) (simp add: SetReloadJointAxis setReloadJointAxis_def)
next
  case (SetReloadAnchor k an)
  show ?thesis
    by (rule keeps_keysI) (simp add: SetReloadAnchor setReloadAnchor_def)
next
  case (ScaleReloadJoints mul sx sy sz)
  show ?thesis
    by (rule keeps_keysI) (simp add: ScaleReloadJoints scaleReloadJoints_def)
next
  case GetJointCount
  show ?thesis
    by (rule keeps_keysI) (simp add: GetJointCount getJointCount_def Let_def)
qed

lemma run_keeps_keys:
  "clear_free cs \<Longrightarrow> keeps_keys m (snd (run cs m))"
proof (induction cs arbitrary: m)
  case Nil
  show ?case by (simp add: keeps_keysI)
next
  case (Cons c cs)
  obtain r m1 where step: "exec c m = (r, m1)"
    by (cases "exec c m")
  have a1: "advances m m1"
    using exec_advances [of c m] Cons.prems by (simp add: step)
  have k1: "keeps_keys m m1"
    using exec_keeps_keys [of m c] by (simp add: step)
  show ?case
  proof (cases r)
    case (Inl e)
    then show ?thesis using k1 by (simp add: step)
  next
    case (Inr u)
    have free: "clear_free cs"
      using Cons.prems by simp
    have "keeps_keys m (snd (run cs m1))"
      using a1 k1 run_advances [OF free] Cons.IH [OF free] by (rule keeps_keys_trans)
    then show ?thesis by (simp add: step Inr)
  qed
qed

lemma issued_id_bounds:
  fixes i c :: nat
  assumes "i < c" and "c < 2 ^ 64 - 1"
  shows "(1 :: ulong) \<le> 1 + word_of_nat i" and "(1 :: ulong) + word_of_nat i < 1 + word_of_nat c"
proof -
  have ui: "unat ((1 :: ulong) + word_of_nat i) = 1 + i"
    using assms by (simp add: unat_word_ariths unat_of_nat)
  have uc: "unat ((1 :: ulong) + word_of_nat c) = 1 + c"
    using assms by (simp add: unat_word_ariths unat_of_nat)
  show "(1 :: ulong) \<le> 1 + word_of_nat i"
    by (simp add: word_le_nat_alt ui)
  show "(1 :: ulong) + word_of_nat i < 1 + word_of_nat c"
    using assms(1) by (simp add: word_less_nat_alt ui uc)
qed

lemma fresh_keys_in_range:
  assumes free: "clear_free ops" and run: "run ops m0 = (Inr (), m)"
    and start: "next_joint_id m0 = 1" "simJoints m0 = []"
    and few: "created m0 m < 2 ^ 64 - 1"
  shows "next_joint_id m \<noteq> 0"
    and "\<forall>k \<in> set (keys (simJoints m)). 1 \<le> k \<and> k < next_joint_id m"
proof -
  have adv: "advances m0 m"
    using run_advances [OF free, of m0] by (simp add: run)
  then have n: "next_joint_id m = 1 + word_of_nat (created m0 m)"
    by (simp add: advances_def start)
  show "next_joint_id m \<noteq> 0"
    using counter_nonzero [OF few] n by simp
  have kk: "keeps_keys m0 m"
    using run_keeps_keys [OF free, of m0] by (simp add: run)
  show "\<forall>k \<in> set (keys (simJoints m)). 1 \<le> k \<and> k < next_joint_id m"
  proof
    fix k
    assume "k \<in> set (keys (simJoints m))"
    then obtain i where i: "i < created m0 m" "k = 1 + word_of_nat i"
      using kk by (auto simp: keeps_keys_def start keys_def)
    show "1 \<le> k \<and> k < next_joint_id m"
      using issued_id_bounds [OF i(1) few] by (simp add: i(2) n)
  qed
qed

lemma since_clear_free: "clear_free (since_clear cs)"
  by (induction cs) simp_all

lemma run_after_clear:
  assumes "\<not> clear_free cs" and "run cs m1 = (Inr (), m)"
  shows "\<exists>m0. next_joint_id m0 = 1 \<and> simJoints m0 = [] \<and>
              run (since_clear cs) m0 = (Inr (), m)"
  using assms
proof (induction cs arbitrary: m1)
  case Nil
  then show ?case by simp
next
  case (Cons c cs)
  obtain r m2 where step: "exec c m1 = (r, m2)"
    by (cases "exec c m1")
  obtain u where r: "r = Inr u"
    using Cons.prems(2) by (cases r) (simp_all add: step)
  have rest: "run cs m2 = (Inr (), m)"
    using Cons.prems(2) by (simp add: step r)
  show ?case
  proof (cases "clear_free cs")
    case True
    then have "is_clear c"
      using Cons.prems(1) by simp
    then obtain b where c: "c = ClearAllJoints b"
      by (cases c) simp_all
    have "next_joint_id m2 = 1 \<and> simJoints m2 = []"
      using step by (auto simp: c)
    then show ?thesis
      using True rest by (auto simp: c)
  next
    case False
    then show ?thesis
      using Cons.IH [OF False rest] by simp
  qed
qed

lemma since_clear_id: "clear_free cs \<Longrightarrow> since_clear cs = cs"
  by (induction cs) simp_all

lemma run_since_clear:
  assumes "run cs (JointManager d) = (Inr (), m)"
  shows "\<exists>m0. next_joint_id m0 = 1 \<and> simJoints m0 = [] \<and>
              run (since_clear cs) m0 = (Inr (), m)"
proof (cases "clear_free cs")
  case True
  have "next_joint_id (JointManager d) = 1 \<and> simJoints (JointManager d) = []"
    by (simp add: JointManager_def)
  then show ?thesis
    using assms by (auto simp: since_clear_id [OF True])
next
  case False
  then show ?thesis
    using assms by (rule run_after_clear)
qed

subsection \<open>The order of the keys is kept\<close>

lemma keys_Cons: "keys ((k, v) # l) = k # keys l"
  by (simp add: keys_def)

lemma ordered_assign: "ordered l \<Longrightarrow> ordered (map_assign k v l)"
proof (induction l)
  case Nil
  then show ?case by (simp add: ordered_def keys_def)
next
  case (Cons e l)
  obtain k' v' where e: "e = (k', v')" by (cases e)
  show ?case
    using Cons by (auto simp: e ordered_Cons keys_assign keys_Cons)
qed

lemma ordered_modify_memory [simp]:
  "ordered (simJointsReload (modify p f m)) = ordered (simJointsReload m)"
  by (cases p) (simp_all add: modify_def ordered_def)

lemma ordered_modify [simp]: "ordered (map_modify k f l) = ordered l"
  by (simp add: ordered_def)

lemma ordered_scale_loop [simp]: "ordered (scale_loop mul sx sy sz l) = ordered l"
  by (simp add: ordered_def keys_def scale_loop_map split_def comp_def)

lemma addJoint_ordered:
  assumes "ordered (simJoints m)" and "ordered (simJointsReload m)"
  shows "ordered (simJoints (snd (addJoint control p reload m))) \<and>
         ordered (simJointsReload (snd (addJoint control p reload m)))"
proof (cases "deref p m")
  case None
  then show ?thesis using assms by (simp add: addJoint_bad_pointer)
next
  case (Some d)
  have t: "ordered (simJointsReload (store_template p reload m))"
    using assms(2) Some by (simp add: store_template_def ordered_assign)
  from Some show ?thesis
  proof (cases rule: addJoint_cases [where control = control and reload = reload])
    case axis
    then show ?thesis using assms(1) t by simp
  next
    case (assert e)
    then show ?thesis using assms(1) t by simp
  next
    case (refused an)
    then show ?thesis using assms(1) t by simp
  next
    case (created an)
    show ?thesis
      using assms(1) t by (simp add: created(1) register_joint_ok [OF created(2)] ordered_assign)
  qed
qed

lemma reload_loop_ordered:
  assumes "ordered (simJoints m)" and "ordered (simJointsReload m)"
  shows "ordered (simJoints (snd (reload_loop control ks m))) \<and>
         ordered (simJointsReload (snd (reload_loop control ks m)))"
  using assms
proof (induction ks arbitrary: m)
  case Nil
  then show ?case by simp
next
  case (Cons k ks)
  obtain r m1 where step: "addJoint control (Template k) True m = (r, m1)"
    by (cases "addJoint control (Template k) True m")
  have o1: "ordered (simJoints m1)" "ordered (simJointsReload m1)"
    using addJoint_ordered [OF Cons.prems, of control "Template k" True] by (simp_all add: step)
  show ?case
  proof (cases r)
    case (Inl e)
    then show ?thesis using o1 by (simp add: step)
  next
    case (Inr v)
    then show ?thesis using Cons.IH [OF o1] by (simp add: step)
  qed
qed

lemma exec_ordered:
  assumes "ordered (simJoints m)" and "ordered (simJointsReload m)"
  shows "ordered (simJoints (snd (exec c m))) \<and> ordered (simJointsReload (snd (exec c m)))"
proof (cases c)
  case (AddJoint control d reload)
  show ?thesis
    using addJoint_ordered [of "m\<lparr>caller_joint := d\<rparr>" control Caller reload] assms
    by (simp add: AddJoint snd_exec_AddJoint del: exec.simps)
next
  case (ReloadJoints control)
  show ?thesis
    using reload_loop_ordered [OF assms] by (simp add: ReloadJoints reloadJoints_def)
next
  case (RemoveJoint k)
  then show ?thesis using assms by (simp add: simJoints_removeJoint ordered_erase)
next
  case (RemoveJointByIDs id1 id2)
  then show ?thesis
    using assms by (simp add: simJoints_removeJointByIDs ordered_erase split: option.splits)
next
  case (ClearAllJoints clear_all)
  then show ?thesis using assms by simp
next
  case (SetReloadJointOffset k offset)
  then show ?thesis using assms by (simp add: setReloadJointOffset_def)
next
  case (SetReloadJointAxis k axis)
  then show ?thesis using assms by (simp add: setReloadJointAxis_def)
next
  case (SetReloadAnchor k an)
  then show ?thesis using assms by (simp add: setReloadAnchor_def)
next
  case (ScaleReloadJoints mul sx sy sz)
  then show ?thesis using assms by (simp add: scaleReloadJoints_def)
next
  case GetJointCount
  then show ?thesis using assms by (simp add: getJointCount_def Let_def)
qed

lemma run_ordered:
  assumes "ordered (simJoints m)" and "ordered (simJointsReload m)"
  shows "ordered (simJoints (snd (run cs m))) \<and> ordered (simJointsReload (snd (run cs m)))"
  using assms
proof (induction cs arbitrary: m)
  case Nil
  then show ?case by simp
next
  case (Cons c cs)
  obtain r m1 where step: "exec c m = (r, m1)"
    by (cases "exec c m")
  have o1: "ordered (simJoints m1)" "ordered (simJointsReload m1)"
    using exec_ordered [OF Cons.prems, of c] by (simp_all add: step)
  show ?case
  proof (cases r)
    case (Inl e)
    then show ?thesis using o1 by (simp add: step)
  next
    case (Inr u)
    then show ?thesis using Cons.IH [OF o1] by (simp add: step)
  qed
qed

lemma reachable_ordered:
  "ordered (simJoints (snd (run cs (JointManager d)))) \<and>
   ordered (simJointsReload (snd (run cs (JointManager d))))"
  by (rule run_ordered) (simp_all add: JointManager_def)

subsection \<open>The examples, evaluated\<close>

lemmas eval_defs = addJoint_def store_template_def deref_def modify_def emit_def
  resolve_anchor_def register_joint_def JointManager_def world_def hinge_def weld_def
  squaredNorm_def getPosition_def getInterface_def body3_def z_axis_def origin_def
  new_events_def Let_def

lemma one_joint_eval:
  "simJoints one_joint = [(1, joint_no 1)]"
  "simJointsReload one_joint = [(7, hinge)]"
  "next_joint_id one_joint = 2"
  "caller_joint one_joint = hinge\<lparr>index := 1, anchor := position body3\<rparr>"
  "trace one_joint = [Lock, Unlock, PhysicsCreateJoint True, Lock, Unlock, SceneHasChanged False]"
  by (simp_all add: one_joint_def joint_no_def eval_defs)

lemma two_joints_eval:
  "simJoints two_joints = [(1, joint_no 1), (2, joint_no 2)]"
  "next_joint_id two_joints = 3"
  by (simp_all add: two_joints_def one_joint_def joint_no_def eval_defs)

lemma two_joints_caller:
  "caller_joint two_joints = hinge\<lparr>index := 2, anchor := position body3\<rparr>"
  by (simp add: two_joints_def one_joint_eval eval_defs)

lemma cleared_eval:
  "simJoints cleared = []"
  "simJointsReload cleared = [(1, hinge\<lparr>index := 1, anchor := position body3\<rparr>), (7, hinge)]"
  "next_joint_id cleared = 1"
  by (simp_all add: cleared_def clearAllJoints_def Let_def two_joints_eval clear_loop_Cons
        two_joints_def one_joint_eval eval_defs)

lemma replayed_first_eval:
  "addJoint (world True) (Template 1) True cleared = (Inr 1, replayed_first)"
  "simJointsReload replayed_first =
     [(1, hinge\<lparr>index := 1, anchor := position body3\<rparr>), (7, hinge)]"
  "simJoints replayed_first = [(1, joint_no 1)]"
  "next_joint_id replayed_first = 2"
  by (simp_all add: replayed_first_def cleared_eval joint_no_def eval_defs)

lemma idle_calls_eval:
  "fst (run idle_calls one_joint) = Inr ()"
  "next_joint_id (snd (run idle_calls one_joint)) = 2"
  "simJoints (snd (run idle_calls one_joint)) = []"
  "caller_joint (snd (run idle_calls one_joint)) = hinge\<lparr>anchor := position body3\<rparr>"
  "trace (snd (run idle_calls one_joint)) =
     trace one_joint @ [Lock, RemoveJointFromMotors 1, SceneHasChanged False, Unlock,
       Lock, Unlock, PhysicsCreateJoint False, Lock, Unlock]"
  by (simp_all add: idle_calls_def removeJoint_def scaleReloadJoints_def one_joint_eval eval_defs)

lemma weld_step:
  assumes "type (caller_joint m) = JOINT_TYPE_FIXED"
    and "anchorPos (caller_joint m) = ANCHOR_CUSTOM"
  shows "fst (addJoint (world True) Caller True m) = Inr (next_joint_id m)"
    and "next_joint_id (snd (addJoint (world True) Caller True m)) = next_joint_id m + 1"
    and "type (caller_joint (snd (addJoint (world True) Caller True m))) = JOINT_TYPE_FIXED"
    and "anchorPos (caller_joint (snd (addJoint (world True) Caller True m))) = ANCHOR_CUSTOM"
    and "PhysicsCreateJoint True \<in>
           set (new_events m (snd (addJoint (world True) Caller True m)))"
    and "map_find (next_joint_id m) (simJoints (snd (addJoint (world True) Caller True m))) \<noteq> None"
    and "simJoints m = [] \<Longrightarrow>
           map_erase (next_joint_id m) (simJoints (snd (addJoint (world True) Caller True m))) = []"
    and "simJointsReload (snd (addJoint (world True) Caller True m)) = simJointsReload m"
  using assms
  by (simp_all add: addJoint_def store_template_def deref_def modify_def register_joint_def
        resolve_anchor_def world_def new_events_def Let_def)

lemma weld_churn:
  assumes "type (caller_joint m) = JOINT_TYPE_FIXED"
    and "anchorPos (caller_joint m) = ANCHOR_CUSTOM"
    and "simJoints m = []"
  shows "next_joint_id (churn n (world True) m) = next_joint_id m + word_of_nat n \<and>
         type (caller_joint (churn n (world True) m)) = JOINT_TYPE_FIXED \<and>
         anchorPos (caller_joint (churn n (world True) m)) = ANCHOR_CUSTOM \<and>
         simJoints (churn n (world True) m) = [] \<and>
         simJointsReload (churn n (world True) m) = simJointsReload m"
  using assms
proof (induction n arbitrary: m)
  case 0
  then show ?case by simp
next
  case (Suc n)
  obtain r m1 where step: "addJoint (world True) Caller True m = (r, m1)"
    by (cases "addJoint (world True) Caller True m")
  have r: "r = Inr (next_joint_id m)" and n1: "next_joint_id m1 = next_joint_id m + 1"
    and t1: "type (caller_joint m1) = JOINT_TYPE_FIXED"
    and a1: "anchorPos (caller_joint m1) = ANCHOR_CUSTOM"
    and e1: "map_erase (next_joint_id m) (simJoints m1) = []"
    and s1: "simJointsReload m1 = simJointsReload m"
    using weld_step(1-4,7,8) [OF Suc.prems(1,2)] Suc.prems(3) by (simp_all add: step)
  let ?m2 = "removeJoint (next_joint_id m) m1"
  have "next_joint_id (churn n (world True) ?m2) = next_joint_id ?m2 + word_of_nat n \<and>
         type (caller_joint (churn n (world True) ?m2)) = JOINT_TYPE_FIXED \<and>
         anchorPos (caller_joint (churn n (world True) ?m2)) = ANCHOR_CUSTOM \<and>
         simJoints (churn n (world True) ?m2) = [] \<and>
         simJointsReload (churn n (world True) ?m2) = simJointsReload ?m2"
    by (rule Suc.IH) (simp_all add: t1 a1 e1 simJoints_removeJoint)
  then show ?case
    by (simp add: step r n1 s1)
qed

section \<open>A refused joint\<close>

text \<open>
  C1. Take any call of \<^verbatim>\<open>addJoint\<close> in which the backend's \<^verbatim>\<open>createJoint\<close> is
  reached and returns false (the call appends the event \<open>PhysicsCreateJoint False\<close>).
  The call returns 0, \<^verbatim>\<open>next_joint_id\<close> and \<^verbatim>\<open>simJoints\<close> are as before, and when
  \<^verbatim>\<open>reload\<close> is false the template stored at the start of the call is still in
  \<^verbatim>\<open>simJointsReload\<close> under the descriptor's index; for a descriptor object of the
  caller's the stored template is the descriptor as it was passed.
\<close>

theorem addJoint_backend_failure:
  assumes "addJoint control p reload m = (r, m')"
    and "PhysicsCreateJoint False \<in> set (new_events m m')"
    and "deref p m = Some d"
  shows "r = Inr 0 \<and> next_joint_id m' = next_joint_id m \<and> simJoints m' = simJoints m \<and>
         (\<not> reload \<longrightarrow> index d \<in> set (keys (simJointsReload m')) \<and>
            (p = Caller \<longrightarrow> map_find (index d) (simJointsReload m') = Some d))"
  using assms
  unfolding addJoint_def register_joint_def new_events_def Let_def
  by (auto simp: store_template_def deref_def modify_def map_find_keys [symmetric]
           split: option.splits sum.splits if_splits JointDataPtr.splits)

theorem addJoint_backend_failure_witness:
  "PhysicsCreateJoint False \<in>
     set (new_events (JointManager hinge)
            (snd (addJoint (world False) Caller False (JointManager hinge)))) \<and>
   deref Caller (JointManager hinge) = Some hinge \<and>
   fst (addJoint (world False) Caller False (JointManager hinge)) = Inr 0 \<and>
   next_joint_id (snd (addJoint (world False) Caller False (JointManager hinge))) = 1 \<and>
   simJoints (snd (addJoint (world False) Caller False (JointManager hinge))) = [] \<and>
   map_find 7 (simJointsReload (snd (addJoint (world False) Caller False (JointManager hinge))))
     = Some hinge"
proof -
  let ?m = "JointManager hinge"
  obtain r m' where call: "addJoint (world False) Caller False ?m = (r, m')"
    by (cases "addJoint (world False) Caller False ?m")
  have refused: "PhysicsCreateJoint False \<in> set (new_events ?m m')"
    using call by (simp add: eval_defs) auto
  have obj: "deref Caller ?m = Some hinge"
    by (simp add: deref_def JointManager_def)
  show ?thesis
    using addJoint_backend_failure [OF call refused obj] call refused obj
    by (simp add: JointManager_def hinge_def)
qed

section \<open>Ids come from a counter\<close>

text \<open>
  C2, as amended. Ids are assigned from the 64-bit counter \<^verbatim>\<open>next_joint_id\<close>: a
  successful \<^verbatim>\<open>addJoint\<close> returns the counter and increments it (modulo \<open>2 ^ 64\<close>),
  and no other call but \<^verbatim>\<open>clearAllJoints\<close>, which sets it to 1, changes it. So a
  successful \<^verbatim>\<open>addJoint\<close> that follows any calls without a \<^verbatim>\<open>clearAllJoints\<close>
  returns the counter of the start plus the number of joints created in between. After
  a \<^verbatim>\<open>clearAllJoints\<close> (with either flag) the next successful \<^verbatim>\<open>addJoint\<close> returns 1.
  And it returns an id strictly greater than the id of an earlier successful
  \<^verbatim>\<open>addJoint\<close> with no \<^verbatim>\<open>clearAllJoints\<close> in between, as long as the counter has
  not wrapped around: the counter before the earlier call plus the number of joints
  created from there on is at most \<open>2 ^ 64\<close>.
\<close>

theorem ids_from_counter:
  assumes "clear_free ops"
    and "run ops m = (Inr (), m1)"
    and "addJoint control p reload m1 = (Inr r, m2)"
    and "PhysicsCreateJoint True \<in> set (new_events m1 m2)"
  shows "r = next_joint_id m + word_of_nat (created m m1) \<and>
         next_joint_id m2 = r + 1 \<and>
         (\<forall>clear_all m0. m = clearAllJoints clear_all m0 \<and> created m m1 = 0 \<longrightarrow> r = 1) \<and>
         (\<forall>control' p' reload' m' r'.
            addJoint control' p' reload' m' = (Inr r', m) \<and>
            PhysicsCreateJoint True \<in> set (new_events m' m) \<and>
            unat (next_joint_id m') + created m' m2 \<le> 2 ^ 64 \<longrightarrow>
            r' < r)"
proof -
  have adv: "advances m m1"
    using run_advances [OF assms(1), of m] by (simp add: assms(2))
  have r: "r = next_joint_id m1" and n2: "next_joint_id m2 = next_joint_id m1 + 1"
    and c2: "created m1 m2 = 1" and p2: "prefix (trace m1) (trace m2)"
    using addJoint_success [OF assms(3,4)] by simp_all
  have r_eq: "r = next_joint_id m + word_of_nat (created m m1)"
    using adv r by (simp add: advances_def)
  have after_clear: "r = 1" if "m = clearAllJoints clear_all m0" "created m m1 = 0"
    for clear_all m0
    using r_eq that by simp
  have later: "r' < r"
    if first: "addJoint control' p' reload' m' = (Inr r', m)"
      and ok: "PhysicsCreateJoint True \<in> set (new_events m' m)"
      and nowrap: "unat (next_joint_id m') + created m' m2 \<le> 2 ^ 64"
    for control' p' reload' m' r'
  proof -
    have r': "r' = next_joint_id m'" and n: "next_joint_id m = next_joint_id m' + 1"
      and c: "created m' m = 1" and p: "prefix (trace m') (trace m)"
      using addJoint_success [OF first ok] by simp_all
    have p1: "prefix (trace m) (trace m1)"
      using adv by (simp add: advances_def)
    have p01: "prefix (trace m') (trace m1)"
      using p p1 by (rule prefix_order.order_trans)
    have total: "created m' m2 = 1 + created m m1 + 1"
      using created_compose [OF p01 p2] created_compose [OF p p1] c c2 by simp
    have "r = next_joint_id m' + word_of_nat (Suc (created m m1))"
      using r_eq n by simp
    moreover have "next_joint_id m' < next_joint_id m' + word_of_nat (Suc (created m m1))"
      using nowrap total by (intro word_advance_less) simp_all
    ultimately show ?thesis
      using r' by simp
  qed
  have n2': "next_joint_id m2 = r + 1"
    using n2 r by simp
  show ?thesis
  proof (intro conjI allI impI)
    show "r = next_joint_id m + word_of_nat (created m m1)"
      by (rule r_eq)
    show "next_joint_id m2 = r + 1"
      by (rule n2')
  next
    fix clear_all m0
    assume "m = clearAllJoints clear_all m0 \<and> created m m1 = 0"
    then show "r = 1"
      using after_clear by blast
  next
    fix control' p' reload' m' r'
    assume "addJoint control' p' reload' m' = (Inr r', m) \<and>
            PhysicsCreateJoint True \<in> set (new_events m' m) \<and>
            unat (next_joint_id m') + created m' m2 \<le> 2 ^ 64"
    then show "r' < r"
      using later by blast
  qed
qed

theorem ids_from_counter_witness:
  "clear_free idle_calls \<and>
   fst (run idle_calls one_joint) = Inr () \<and>
   fst (addJoint (world True) Caller False (JointManager hinge)) = Inr 1 \<and>
   snd (addJoint (world True) Caller False (JointManager hinge)) = one_joint \<and>
   PhysicsCreateJoint True \<in> set (new_events (JointManager hinge) one_joint) \<and>
   fst (addJoint (world True) Caller False (snd (run idle_calls one_joint))) = Inr 2 \<and>
   PhysicsCreateJoint True \<in>
     set (new_events (snd (run idle_calls one_joint))
            (snd (addJoint (world True) Caller False (snd (run idle_calls one_joint))))) \<and>
   unat (next_joint_id (JointManager hinge)) +
     created (JointManager hinge)
       (snd (addJoint (world True) Caller False (snd (run idle_calls one_joint)))) \<le> 2 ^ 64 \<and>
   (1 :: ulong) < 2 \<and>
   fst (run [] (clearAllJoints True two_joints)) = Inr () \<and>
   created (clearAllJoints True two_joints) (clearAllJoints True two_joints) = 0 \<and>
   fst (addJoint (world True) Caller False (clearAllJoints True two_joints)) = Inr 1"
proof -
  let ?c = "world True"
  let ?m0 = "JointManager hinge"
  obtain m1 where run: "run idle_calls one_joint = (Inr (), m1)"
    using idle_calls_eval(1) by (cases "run idle_calls one_joint") auto
  have m1: "next_joint_id m1 = 2" "simJoints m1 = []"
    "caller_joint m1 = hinge\<lparr>anchor := position body3\<rparr>"
    "trace m1 = trace one_joint @ [Lock, RemoveJointFromMotors 1, SceneHasChanged False, Unlock,
       Lock, Unlock, PhysicsCreateJoint False, Lock, Unlock]"
    using idle_calls_eval(2-5) by (simp_all add: run)
  obtain r m2 where second: "addJoint ?c Caller False m1 = (Inr r, m2)" and r: "r = 2"
    and tr2: "trace m2 = trace m1 @
       [Lock, Unlock, PhysicsCreateJoint True, Lock, Unlock, SceneHasChanged False]"
    by (simp add: m1 eval_defs)
  have ok2: "PhysicsCreateJoint True \<in> set (new_events m1 m2)"
    by (simp add: tr2)
  have free: "clear_free idle_calls"
    by (simp add: idle_calls_def)
  obtain r' where first: "addJoint ?c Caller False ?m0 = (Inr r', one_joint)" and r': "r' = 1"
    by (cases "addJoint ?c Caller False ?m0") (simp add: one_joint_def eval_defs)
  have ok1: "PhysicsCreateJoint True \<in> set (new_events ?m0 one_joint)"
    by (simp add: new_events_def one_joint_eval JointManager_def)
  have nowrap: "unat (next_joint_id ?m0) + created ?m0 m2 \<le> 2 ^ 64"
    by (simp add: created_def new_events_def tr2 m1 one_joint_eval JointManager_def)
  have "r' < r"
    using ids_from_counter [OF free run second ok2] first ok1 nowrap by blast
  let ?mc = "clearAllJoints True two_joints"
  have run_c: "run [] ?mc = (Inr (), ?mc)"
    by simp
  have none: "created ?mc ?mc = 0"
    by (simp add: created_def new_events_def)
  obtain r3 m3 where third: "addJoint ?c Caller False ?mc = (Inr r3, m3)"
    and ok3: "PhysicsCreateJoint True \<in> set (new_events ?mc m3)"
    by (simp add: two_joints_caller two_joints_eval keys_def eval_defs)
  have "r3 = 1"
    using ids_from_counter [OF clear_free_Nil run_c third ok3] none by blast
  then show ?thesis
    using free run second r first r' ok1 ok2 nowrap third none by simp
qed

text \<open>
  The claim as stated fails when the counter wraps around. On a new manager, with a
  backend that accepts every joint, a client has a joint created and removes it again
  \<open>2 ^ 64 - 2\<close> times. The next \<^verbatim>\<open>addJoint\<close> returns \<open>2 ^ 64 - 1\<close>, and the one
  after it, as successful, returns 0.
\<close>

theorem ids_from_counter_counterexample:
  "simJoints (churn 18446744073709551614 (world True) (JointManager weld)) = [] \<and>
   fst (addJoint (world True) Caller True
          (churn 18446744073709551614 (world True) (JointManager weld))) =
     Inr 18446744073709551615 \<and>
   PhysicsCreateJoint True \<in>
     set (new_events
            (churn 18446744073709551614 (world True) (JointManager weld))
            (snd (addJoint (world True) Caller True
               (churn 18446744073709551614 (world True) (JointManager weld))))) \<and>
   fst (addJoint (world True) Caller True
          (snd (addJoint (world True) Caller True
             (churn 18446744073709551614 (world True) (JointManager weld))))) =
     Inr 0 \<and>
   PhysicsCreateJoint True \<in>
     set (new_events
            (snd (addJoint (world True) Caller True
               (churn 18446744073709551614 (world True) (JointManager weld))))
            (snd (addJoint (world True) Caller True
               (snd (addJoint (world True) Caller True
                  (churn 18446744073709551614 (world True) (JointManager weld))))))) \<and>
   \<not> ((18446744073709551615 :: ulong) < 0)"
proof -
  let ?c = "world True"
  let ?m = "churn 18446744073709551614 ?c (JointManager weld)"
  have w: "type (caller_joint (JointManager weld)) = JOINT_TYPE_FIXED"
    "anchorPos (caller_joint (JointManager weld)) = ANCHOR_CUSTOM"
    "simJoints (JointManager weld) = []"
    by (simp_all add: JointManager_def weld_def)
  have m: "next_joint_id ?m = 18446744073709551615"
    "type (caller_joint ?m) = JOINT_TYPE_FIXED" "anchorPos (caller_joint ?m) = ANCHOR_CUSTOM"
    "simJoints ?m = []"
    using weld_churn [OF w, of 18446744073709551614] by (simp_all add: JointManager_def)
  let ?m1 = "snd (addJoint ?c Caller True ?m)"
  have m1: "next_joint_id ?m1 = 0"
    "type (caller_joint ?m1) = JOINT_TYPE_FIXED" "anchorPos (caller_joint ?m1) = ANCHOR_CUSTOM"
    using weld_step(2-4) [OF m(2,3)] by (simp_all add: m(1))
  show ?thesis
    using weld_step(1,5) [OF m(2,3)] weld_step(1,5) [OF m1(2,3)]
    by (simp add: m(1,4) m1(1))
qed

section \<open>An anchor at a missing node\<close>

text \<open>
  C3, as amended. The assertions are taken as compiled in. Take any call of
  \<^verbatim>\<open>addJoint\<close> that has passed the axis check and whose anchor policy names a node
  the node manager does not have (\<^verbatim>\<open>ANCHOR_NODE1\<close> without node 1,
  \<^verbatim>\<open>ANCHOR_NODE2\<close> without node 2, \<^verbatim>\<open>ANCHOR_CENTER\<close> without one of them). The call
  fails the \<^verbatim>\<open>assert\<close> on that node (on node 1 when both are missing) and the
  process aborts: the call returns no value at all, neither an id nor an error. The
  backend's \<^verbatim>\<open>createJoint\<close> is not called, and \<^verbatim>\<open>simJoints\<close> and
  \<^verbatim>\<open>next_joint_id\<close> are as before.
\<close>

theorem addJoint_missing_anchor_body:
  assumes "deref p m = Some d"
    and "\<not> (squaredNorm (axis1 d) < EPSILON control \<and> type d \<noteq> JOINT_TYPE_FIXED)"
    and "(anchorPos d = ANCHOR_NODE1 \<and> getSimNode control (nodeIndex1 d) = None) \<or>
         (anchorPos d = ANCHOR_NODE2 \<and> getSimNode control (nodeIndex2 d) = None) \<or>
         (anchorPos d = ANCHOR_CENTER \<and>
            (getSimNode control (nodeIndex1 d) = None \<or> getSimNode control (nodeIndex2 d) = None))"
  shows "fst (addJoint control p reload m) =
           Inl (if anchorPos d = ANCHOR_NODE2 \<or>
                   (anchorPos d = ANCHOR_CENTER \<and> getSimNode control (nodeIndex1 d) \<noteq> None)
                then AssertNode2 else AssertNode1) \<and>
         (\<forall>v. fst (addJoint control p reload m) \<noteq> Inr v) \<and>
         (\<forall>ok. PhysicsCreateJoint ok \<notin> set (new_events m (snd (addJoint control p reload m)))) \<and>
         simJoints (snd (addJoint control p reload m)) = simJoints m \<and>
         next_joint_id (snd (addJoint control p reload m)) = next_joint_id m"
proof -
  let ?m1 = "store_template p reload m"
  let ?e = "if anchorPos d = ANCHOR_NODE2 \<or>
               (anchorPos d = ANCHOR_CENTER \<and> getSimNode control (nodeIndex1 d) \<noteq> None)
            then AssertNode2 else AssertNode1"
  have d1: "deref p ?m1 = Some d"
    using assms(1) by (rule deref_store_template)
  have e: "resolve_anchor d (getSimNode control (nodeIndex1 d))
      (getSimNode control (nodeIndex2 d)) = Inl ?e"
    using assms(3) by (auto simp: resolve_anchor_def split: option.splits)
  have call: "addJoint control p reload m = (Inl ?e, ?m1)"
    using assms(1,2) d1 e by (simp add: addJoint_def Let_def)
  show ?thesis
    by (simp add: call new_events_def trace_store_template)
qed

theorem addJoint_missing_anchor_body_witness:
  "deref Caller (JointManager (hinge\<lparr>nodeIndex1 := 5\<rparr>)) = Some (hinge\<lparr>nodeIndex1 := 5\<rparr>) \<and>
   \<not> (squaredNorm (axis1 (hinge\<lparr>nodeIndex1 := 5\<rparr>)) < EPSILON (world True) \<and>
      type (hinge\<lparr>nodeIndex1 := 5\<rparr>) \<noteq> JOINT_TYPE_FIXED) \<and>
   anchorPos (hinge\<lparr>nodeIndex1 := 5\<rparr>) = ANCHOR_NODE1 \<and>
   getSimNode (world True) (nodeIndex1 (hinge\<lparr>nodeIndex1 := 5\<rparr>)) = None \<and>
   fst (addJoint (world True) Caller False (JointManager (hinge\<lparr>nodeIndex1 := 5\<rparr>)))
     = Inl AssertNode1 \<and>
   simJoints (snd (addJoint (world True) Caller False (JointManager (hinge\<lparr>nodeIndex1 := 5\<rparr>))))
     = [] \<and>
   next_joint_id (snd (addJoint (world True) Caller False
     (JointManager (hinge\<lparr>nodeIndex1 := 5\<rparr>)))) = 1"
proof -
  let ?h = "hinge\<lparr>nodeIndex1 := 5\<rparr>"
  have h1: "deref Caller (JointManager ?h) = Some ?h"
    by (simp add: deref_def JointManager_def)
  have h2: "\<not> (squaredNorm (axis1 ?h) < EPSILON (world True) \<and> type ?h \<noteq> JOINT_TYPE_FIXED)"
    by (simp add: squaredNorm_def hinge_def z_axis_def world_def)
  have h3: "anchorPos ?h = ANCHOR_NODE1" "getSimNode (world True) (nodeIndex1 ?h) = None"
    by (simp_all add: hinge_def world_def)
  have h4: "(anchorPos ?h = ANCHOR_NODE1 \<and> getSimNode (world True) (nodeIndex1 ?h) = None) \<or>
         (anchorPos ?h = ANCHOR_NODE2 \<and> getSimNode (world True) (nodeIndex2 ?h) = None) \<or>
         (anchorPos ?h = ANCHOR_CENTER \<and>
            (getSimNode (world True) (nodeIndex1 ?h) = None \<or>
             getSimNode (world True) (nodeIndex2 ?h) = None))"
    using h3 by simp
  show ?thesis
    using addJoint_missing_anchor_body [OF h1 h2 h4, of False] h1 h2 h3
    by (simp add: JointManager_def)
qed

text \<open>
  The claim as stated fails on a descriptor that passes the axis check: the call does
  not surface an error to its caller, it does not return. A hinge with the axis
  (0, 0, 1) between a node 4 that the node manager does not have and the environment,
  anchored at node 4, ends in the failed \<^verbatim>\<open>assert(node1)\<close> of line 98. The same hinge
  between body 3 and the environment (node 0, which the node manager does not have),
  anchored at the midpoint of the two, ends in the failed \<^verbatim>\<open>assert(node2)\<close> of
  line 105. No value comes back from either call, as it does from the axis check and
  from a refusal of the backend, which both return 0.
\<close>

theorem addJoint_missing_anchor_body_counterexample:
  "\<not> (squaredNorm (axis1 (hinge\<lparr>nodeIndex1 := 4\<rparr>)) < EPSILON (world True)) \<and>
   anchorPos (hinge\<lparr>nodeIndex1 := 4\<rparr>) = ANCHOR_NODE1 \<and>
   getSimNode (world True) (nodeIndex1 (hinge\<lparr>nodeIndex1 := 4\<rparr>)) = None \<and>
   fst (addJoint (world True) Caller False (JointManager (hinge\<lparr>nodeIndex1 := 4\<rparr>)))
     = Inl AssertNode1 \<and>
   (\<forall>v. fst (addJoint (world True) Caller False
            (JointManager (hinge\<lparr>nodeIndex1 := 4\<rparr>))) \<noteq> Inr v) \<and>
   \<not> (squaredNorm (axis1 (hinge\<lparr>anchorPos := ANCHOR_CENTER\<rparr>)) < EPSILON (world True)) \<and>
   anchorPos (hinge\<lparr>anchorPos := ANCHOR_CENTER\<rparr>) = ANCHOR_CENTER \<and>
   getSimNode (world True) (nodeIndex2 (hinge\<lparr>anchorPos := ANCHOR_CENTER\<rparr>)) = None \<and>
   fst (addJoint (world True) Caller False (JointManager (hinge\<lparr>anchorPos := ANCHOR_CENTER\<rparr>)))
     = Inl AssertNode2 \<and>
   (\<forall>v. fst (addJoint (world True) Caller False
            (JointManager (hinge\<lparr>anchorPos := ANCHOR_CENTER\<rparr>))) \<noteq> Inr v)"
  by (simp add: eval_defs)

section \<open>A degenerate axis\<close>

text \<open>
  C4. Take any call of \<^verbatim>\<open>addJoint\<close> whose descriptor has an \<^verbatim>\<open>axis1\<close> of squared
  norm zero, with a positive \<^verbatim>\<open>EPSILON\<close>. If the type is not
  \<^verbatim>\<open>JOINT_TYPE_FIXED\<close>, the call returns 0, and \<^verbatim>\<open>next_joint_id\<close>,
  \<^verbatim>\<open>simJoints\<close> and the value of \<^verbatim>\<open>getJointCount\<close> are as before. If the type is
  \<^verbatim>\<open>JOINT_TYPE_FIXED\<close>, the call is not rejected: once the anchor is resolved and
  the backend creates the joint, it returns the new id.
\<close>

theorem addJoint_invalid_axis:
  assumes "deref p m = Some d"
    and "squaredNorm (axis1 d) = 0"
    and "0 < EPSILON control"
  shows "(type d \<noteq> JOINT_TYPE_FIXED \<longrightarrow>
            fst (addJoint control p reload m) = Inr 0 \<and>
            next_joint_id (snd (addJoint control p reload m)) = next_joint_id m \<and>
            simJoints (snd (addJoint control p reload m)) = simJoints m \<and>
            fst (getJointCount (snd (addJoint control p reload m))) = fst (getJointCount m)) \<and>
         (type d = JOINT_TYPE_FIXED \<longrightarrow>
            (\<forall>an. resolve_anchor d (getSimNode control (nodeIndex1 d))
                     (getSimNode control (nodeIndex2 d)) = Inr an \<longrightarrow>
                  createJoint control (d\<lparr>anchor := an\<rparr>)
                     (map_option getInterface (getSimNode control (nodeIndex1 d)))
                     (map_option getInterface (getSimNode control (nodeIndex2 d))) \<longrightarrow>
                  fst (addJoint control p reload m) = Inr (next_joint_id m)))"
proof -
  let ?m1 = "store_template p reload m"
  have d1: "deref p ?m1 = Some d"
    using assms(1) by (rule deref_store_template)
  show ?thesis
  proof (intro conjI impI allI)
    assume nf: "type d \<noteq> JOINT_TYPE_FIXED"
    then have call: "addJoint control p reload m = (Inr 0, ?m1)"
      using assms d1 by (simp add: addJoint_def Let_def)
    show "fst (addJoint control p reload m) = Inr 0"
      and "next_joint_id (snd (addJoint control p reload m)) = next_joint_id m"
      and "simJoints (snd (addJoint control p reload m)) = simJoints m"
      and "fst (getJointCount (snd (addJoint control p reload m))) = fst (getJointCount m)"
      by (simp_all add: call getJointCount_fst)
  next
    fix an
    assume f: "type d = JOINT_TYPE_FIXED"
      and r: "resolve_anchor d (getSimNode control (nodeIndex1 d))
                     (getSimNode control (nodeIndex2 d)) = Inr an"
      and ok: "createJoint control (d\<lparr>anchor := an\<rparr>)
                     (map_option getInterface (getSimNode control (nodeIndex1 d)))
                     (map_option getInterface (getSimNode control (nodeIndex2 d)))"
    let ?m2 = "modify p (\<lambda>d. d\<lparr>anchor := an\<rparr>) ?m1"
    have d2: "deref p ?m2 = Some (d\<lparr>anchor := an\<rparr>)"
      using d1 by (rule deref_modify)
    have reg: "fst (register_joint p n1 n2 m3) = Inr (next_joint_id m3)"
      if "deref p m3 = Some d3" for n1 n2 m3 d3
      using that by (cases p) (auto simp: register_joint_def Let_def deref_def modify_def)
    have d3: "deref p (emit (PhysicsCreateJoint True) ?m2) = Some (d\<lparr>anchor := an\<rparr>)"
      using d2 by (cases p) (auto simp: deref_def)
    show "fst (addJoint control p reload m) = Inr (next_joint_id m)"
      using assms(1) d1 f r ok d2 reg [OF d3]
      by (simp add: addJoint_def Let_def)
  qed
qed

theorem addJoint_invalid_axis_witness:
  "deref Caller (JointManager (hinge\<lparr>axis1 := origin\<rparr>)) = Some (hinge\<lparr>axis1 := origin\<rparr>) \<and>
   squaredNorm (axis1 (hinge\<lparr>axis1 := origin\<rparr>)) = 0 \<and>
   0 < EPSILON (world True) \<and>
   type (hinge\<lparr>axis1 := origin\<rparr>) \<noteq> JOINT_TYPE_FIXED \<and>
   fst (addJoint (world True) Caller False (JointManager (hinge\<lparr>axis1 := origin\<rparr>))) = Inr 0 \<and>
   next_joint_id (snd (addJoint (world True) Caller False
      (JointManager (hinge\<lparr>axis1 := origin\<rparr>)))) = 1 \<and>
   fst (getJointCount (snd (addJoint (world True) Caller False
      (JointManager (hinge\<lparr>axis1 := origin\<rparr>))))) = 0 \<and>
   deref Caller (JointManager weld) = Some weld \<and>
   squaredNorm (axis1 weld) = 0 \<and>
   type weld = JOINT_TYPE_FIXED \<and>
   resolve_anchor weld (getSimNode (world True) (nodeIndex1 weld))
     (getSimNode (world True) (nodeIndex2 weld)) = Inr origin \<and>
   createJoint (world True) (weld\<lparr>anchor := origin\<rparr>)
     (map_option getInterface (getSimNode (world True) (nodeIndex1 weld)))
     (map_option getInterface (getSimNode (world True) (nodeIndex2 weld))) \<and>
   fst (addJoint (world True) Caller False (JointManager weld)) = Inr 1"
proof -
  let ?h = "hinge\<lparr>axis1 := origin\<rparr>"
  have h1: "deref Caller (JointManager ?h) = Some ?h"
    by (simp add: deref_def JointManager_def)
  have h2: "squaredNorm (axis1 ?h) = 0"
    by (simp add: squaredNorm_def origin_def)
  have eps: "0 < EPSILON (world True)"
    by (simp add: world_def)
  have h3: "type ?h \<noteq> JOINT_TYPE_FIXED"
    by (simp add: hinge_def)
  have w1: "deref Caller (JointManager weld) = Some weld"
    by (simp add: deref_def JointManager_def)
  have w2: "squaredNorm (axis1 weld) = 0"
    by (simp add: squaredNorm_def origin_def weld_def)
  have w3: "type weld = JOINT_TYPE_FIXED"
    by (simp add: weld_def)
  have w4: "resolve_anchor weld (getSimNode (world True) (nodeIndex1 weld))
     (getSimNode (world True) (nodeIndex2 weld)) = Inr origin"
    by (simp add: resolve_anchor_def weld_def)
  have w5: "createJoint (world True) (weld\<lparr>anchor := origin\<rparr>)
     (map_option getInterface (getSimNode (world True) (nodeIndex1 weld)))
     (map_option getInterface (getSimNode (world True) (nodeIndex2 weld)))"
    by (simp add: world_def)
  show ?thesis
    using addJoint_invalid_axis [OF h1 h2 eps, of False]
      addJoint_invalid_axis [OF w1 w2 eps, of False]
      h1 h2 eps h3 w1 w2 w3 w4 w5
    by (simp add: JointManager_def getJointCount_fst)
qed

section \<open>The mutex at the outbound calls\<close>

text \<open>
  C5, as amended. Each method is entered with the mutex free, and leaves it free.
  \<^verbatim>\<open>addJoint\<close> (and so \<^verbatim>\<open>reloadJoints\<close>) makes no call to the motor manager or to
  the simulator while it holds the mutex: its one \<^verbatim>\<open>sceneHasChanged(false)\<close>, made
  when the joint was created, comes after \<^verbatim>\<open>iMutex.unlock()\<close>. \<^verbatim>\<open>removeJoint\<close>
  (and so \<^verbatim>\<open>removeJointByIDs\<close> when it finds a joint) and \<^verbatim>\<open>clearAllJoints\<close> make
  every one of their calls \<^verbatim>\<open>removeJointFromMotors\<close> and \<^verbatim>\<open>sceneHasChanged\<close> while
  the \<^verbatim>\<open>MutexLocker\<close> of the function body holds the mutex, and none with the mutex
  free; the mutex is released after the last of these calls, when the function returns:
  the events of each of these methods are given in full, and they end with the unlock.
\<close>

theorem mutex_at_outbound_calls:
  "locked_calls False (new_events m (snd (addJoint control p reload m))) = [] \<and>
   unlocked_calls False (new_events m (snd (addJoint control p reload m))) =
     (if PhysicsCreateJoint True \<in> set (new_events m (snd (addJoint control p reload m)))
      then [SceneHasChanged False] else []) \<and>
   held_after False (new_events m (snd (addJoint control p reload m))) = False \<and>
   locked_calls False (new_events m (snd (reloadJoints control m))) = [] \<and>
   held_after False (new_events m (snd (reloadJoints control m))) = False \<and>
   new_events m (removeJoint k m) =
     [Lock, RemoveJointFromMotors k, SceneHasChanged False, Unlock] \<and>
   locked_calls False (new_events m (removeJoint k m)) =
     [RemoveJointFromMotors k, SceneHasChanged False] \<and>
   unlocked_calls False (new_events m (removeJoint k m)) = [] \<and>
   held_after False (new_events m (removeJoint k m)) = False \<and>
   new_events m (removeJointByIDs id1 id2 m) =
     [Lock, Unlock] @
     (case find_by_ids id1 id2 (simJoints m) of
        None \<Rightarrow> []
      | Some k' \<Rightarrow> [Lock, RemoveJointFromMotors k', SceneHasChanged False, Unlock]) \<and>
   locked_calls False (new_events m (removeJointByIDs id1 id2 m)) =
     (case find_by_ids id1 id2 (simJoints m) of
        None \<Rightarrow> []
      | Some k' \<Rightarrow> [RemoveJointFromMotors k', SceneHasChanged False]) \<and>
   unlocked_calls False (new_events m (removeJointByIDs id1 id2 m)) = [] \<and>
   held_after False (new_events m (removeJointByIDs id1 id2 m)) = False \<and>
   new_events m (clearAllJoints clear_all m) =
     [Lock] @ map RemoveJointFromMotors (keys (simJoints m)) @ [SceneHasChanged False, Unlock] \<and>
   locked_calls False (new_events m (clearAllJoints clear_all m)) =
     map RemoveJointFromMotors (keys (simJoints m)) @ [SceneHasChanged False] \<and>
   unlocked_calls False (new_events m (clearAllJoints clear_all m)) = [] \<and>
   held_after False (new_events m (clearAllJoints clear_all m)) = False"
proof -
  obtain evs where evs: "trace (snd (addJoint control p reload m)) = trace m @ evs"
    "locked_calls False evs = []"
    "unlocked_calls False evs =
       (if PhysicsCreateJoint True \<in> set evs then [SceneHasChanged False] else [])"
    using addJoint_summary [of control p reload m] by auto
  obtain evs0 where evs0: "trace (snd (addJoint control p reload m)) = trace m @ evs0"
    "held_after False evs0 = False"
    using addJoint_unlocked [of control p reload m] by auto
  have add: "locked_calls False (new_events m (snd (addJoint control p reload m))) = []"
    "unlocked_calls False (new_events m (snd (addJoint control p reload m))) =
     (if PhysicsCreateJoint True \<in> set (new_events m (snd (addJoint control p reload m)))
      then [SceneHasChanged False] else [])"
    using evs by simp_all
  have add_free: "held_after False (new_events m (snd (addJoint control p reload m))) = False"
    using evs0 by simp
  obtain evs' where evs': "trace (snd (reloadJoints control m)) = trace m @ evs'"
    "locked_calls False evs' = []"
    using reload_loop_events [of control "keys (simJointsReload m)" m]
    by (auto simp: reloadJoints_def)
  obtain evs1 where evs1: "trace (snd (reloadJoints control m)) = trace m @ evs1"
    "held_after False evs1 = False"
    using reload_loop_unlocked [of control "keys (simJointsReload m)" m]
    by (auto simp: reloadJoints_def)
  have reload: "locked_calls False (new_events m (snd (reloadJoints control m))) = []"
    using evs' by simp
  have reload_free: "held_after False (new_events m (snd (reloadJoints control m))) = False"
    using evs1 by simp
  have remove: "new_events m (removeJoint k m) =
     [Lock, RemoveJointFromMotors k, SceneHasChanged False, Unlock]"
    by simp
  have by_ids: "new_events m (removeJointByIDs id1 id2 m) =
     [Lock, Unlock] @
     (case find_by_ids id1 id2 (simJoints m) of
        None \<Rightarrow> []
      | Some k' \<Rightarrow> [Lock, RemoveJointFromMotors k', SceneHasChanged False, Unlock])"
    by (rule new_events_append) (rule trace_removeJointByIDs)
  have clear: "new_events m (clearAllJoints clear_all m) =
     [Lock] @ map RemoveJointFromMotors (keys (simJoints m)) @ [SceneHasChanged False, Unlock]"
    by (rule new_events_append) simp
  have by_ids_calls:
    "locked_calls False (new_events m (removeJointByIDs id1 id2 m)) =
     (case find_by_ids id1 id2 (simJoints m) of
        None \<Rightarrow> []
      | Some k' \<Rightarrow> [RemoveJointFromMotors k', SceneHasChanged False])"
    "unlocked_calls False (new_events m (removeJointByIDs id1 id2 m)) = []"
    "held_after False (new_events m (removeJointByIDs id1 id2 m)) = False"
    by (simp_all add: by_ids split: option.splits)
  have clear_calls:
    "locked_calls False (new_events m (clearAllJoints clear_all m)) =
     map RemoveJointFromMotors (keys (simJoints m)) @ [SceneHasChanged False]"
    "unlocked_calls False (new_events m (clearAllJoints clear_all m)) = []"
    "held_after False (new_events m (clearAllJoints clear_all m)) = False"
    by (simp_all add: clear locked_calls_append unlocked_calls_append held_after_append)
  show ?thesis
    using add add_free reload reload_free by_ids by_ids_calls clear clear_calls
    by (simp add: remove)
qed

theorem mutex_at_outbound_calls_witness:
  "unlocked_calls False
     (new_events (JointManager hinge) (snd (addJoint (world True) Caller False (JointManager hinge))))
     = [SceneHasChanged False] \<and>
   locked_calls False
     (new_events (JointManager hinge) (snd (addJoint (world True) Caller False (JointManager hinge))))
     = [] \<and>
   unlocked_calls False (new_events (JointManager hinge) (removeJoint 1 (JointManager hinge))) = [] \<and>
   held_after False (new_events (JointManager hinge) (removeJoint 1 (JointManager hinge))) = False \<and>
   new_events (JointManager hinge) (clearAllJoints True (JointManager hinge)) =
     [Lock, SceneHasChanged False, Unlock]"
proof -
  have created: "PhysicsCreateJoint True \<in>
    set (new_events (JointManager hinge) (snd (addJoint (world True) Caller False (JointManager hinge))))"
    using one_joint_eval(5) by (simp add: one_joint_def new_events_def JointManager_def)
  have none: "keys (simJoints (JointManager hinge)) = []"
    by (simp add: JointManager_def keys_def)
  show ?thesis
    using mutex_at_outbound_calls [of "JointManager hinge" "world True" Caller False 1 _ _ True]
      created none
    by simp
qed

text \<open>
  The claim as stated fails in \<^verbatim>\<open>removeJoint\<close> and in \<^verbatim>\<open>clearAllJoints\<close>: the mutex
  is held at each of their outbound calls.
\<close>

theorem mutex_at_outbound_calls_counterexample:
  "locked_calls False (new_events one_joint (removeJoint 1 one_joint)) =
     [RemoveJointFromMotors 1, SceneHasChanged False] \<and>
   locked_calls False (new_events two_joints (clearAllJoints True two_joints)) =
     [RemoveJointFromMotors 1, RemoveJointFromMotors 2, SceneHasChanged False]"
  by (simp add: new_events_def two_joints_eval keys_def)

section \<open>Removing a joint twice\<close>

text \<open>
  C6. \<^verbatim>\<open>removeJoint(id)\<close> is idempotent. After a second call with the same id the
  manager's members (\<^verbatim>\<open>simJoints\<close>, \<^verbatim>\<open>simJointsReload\<close>, \<^verbatim>\<open>next_joint_id\<close>) are
  what they were after the first: the id is gone after the first call and the second
  removes nothing. Each of the two calls makes the call
  \<^verbatim>\<open>removeJointFromMotors(id)\<close> and the call \<^verbatim>\<open>sceneHasChanged(false)\<close>, whether
  the id is present or not. The hypothesis is the order of the keys of a
  \<^verbatim>\<open>std::map\<close>, which every call keeps (\<open>reachable_ordered\<close>).
\<close>

theorem removeJoint_idempotent:
  assumes "ordered (simJoints m)"
  shows "simJoints (removeJoint k (removeJoint k m)) = simJoints (removeJoint k m) \<and>
         simJointsReload (removeJoint k (removeJoint k m)) = simJointsReload (removeJoint k m) \<and>
         next_joint_id (removeJoint k (removeJoint k m)) = next_joint_id (removeJoint k m) \<and>
         map_find k (simJoints (removeJoint k m)) = None \<and>
         new_events m (removeJoint k m) =
           [Lock, RemoveJointFromMotors k, SceneHasChanged False, Unlock] \<and>
         new_events (removeJoint k m) (removeJoint k (removeJoint k m)) =
           [Lock, RemoveJointFromMotors k, SceneHasChanged False, Unlock]"
proof -
  have gone: "k \<notin> set (keys (map_erase k (simJoints m)))"
    using assms by (rule erase_removes_key)
  then have "map_erase k (map_erase k (simJoints m)) = map_erase k (simJoints m)"
    by (rule map_erase_absent)
  then show ?thesis
    using gone by (simp add: simJoints_removeJoint map_find_absent)
qed

theorem removeJoint_idempotent_witness:
  "ordered (simJoints one_joint) \<and>
   simJoints one_joint = [(1, joint_no 1)] \<and>
   simJoints (removeJoint 1 one_joint) = [] \<and>
   simJoints (removeJoint 1 (removeJoint 1 one_joint)) = [] \<and>
   new_events (removeJoint 1 one_joint) (removeJoint 1 (removeJoint 1 one_joint)) =
     [Lock, RemoveJointFromMotors 1, SceneHasChanged False, Unlock]"
proof -
  have ord: "ordered (simJoints one_joint)"
    by (simp add: one_joint_eval ordered_Cons keys_def)
  show ?thesis
    using removeJoint_idempotent [OF ord, of 1] ord
    by (simp add: one_joint_eval simJoints_removeJoint)
qed

section \<open>Removing a joint by the pair of its nodes\<close>

text \<open>
  C7. \<^verbatim>\<open>removeJointByIDs(id1, id2)\<close> removes at most one record per call: the first
  entry of \<^verbatim>\<open>simJoints\<close>, in the order of iteration, whose two node indices are the
  pair in either order. Every other entry stays, those attached to the same pair too;
  when no entry is attached to the pair, \<^verbatim>\<open>simJoints\<close> is unchanged. The templates and
  \<^verbatim>\<open>next_joint_id\<close> are never touched. The hypothesis is the order of the keys of
  a \<^verbatim>\<open>std::map\<close>, which every call keeps (\<open>reachable_ordered\<close>).
\<close>

theorem removeJointByIDs_first_match:
  assumes "ordered (simJoints m)"
  shows "(\<forall>pre k j post.
            simJoints m = pre @ (k, j) # post \<and>
            (\<forall>e \<in> set pre. \<not> attached_to id1 id2 (snd e)) \<and> attached_to id1 id2 j \<longrightarrow>
            simJoints (removeJointByIDs id1 id2 m) = pre @ post) \<and>
         ((\<forall>e \<in> set (simJoints m). \<not> attached_to id1 id2 (snd e)) \<longrightarrow>
            simJoints (removeJointByIDs id1 id2 m) = simJoints m) \<and>
         length (simJoints m) \<le> Suc (length (simJoints (removeJointByIDs id1 id2 m))) \<and>
         simJointsReload (removeJointByIDs id1 id2 m) = simJointsReload m \<and>
         next_joint_id (removeJointByIDs id1 id2 m) = next_joint_id m"
proof -
  have first: "simJoints (removeJointByIDs id1 id2 m) = pre @ post"
    if "simJoints m = pre @ (k, j) # post"
      and "\<forall>e \<in> set pre. \<not> attached_to id1 id2 (snd e)" and "attached_to id1 id2 j"
    for pre k j post
  proof -
    have "k \<notin> set (keys pre)"
      using assms that(1) by (simp add: ordered_append_key)
    then show ?thesis
      using that by (simp add: simJoints_removeJointByIDs find_by_ids_first map_erase_middle)
  qed
  have none: "simJoints (removeJointByIDs id1 id2 m) = simJoints m"
    if "\<forall>e \<in> set (simJoints m). \<not> attached_to id1 id2 (snd e)"
    using that by (simp add: simJoints_removeJointByIDs find_by_ids_none)
  have len: "length l \<le> Suc (length (map_erase k l))" for k and l :: "SimJoint stdmap"
    by (induction l) auto
  have most: "length (simJoints m) \<le> Suc (length (simJoints (removeJointByIDs id1 id2 m)))"
    by (simp add: simJoints_removeJointByIDs len split: option.splits)
  show ?thesis
    using first none most by auto
qed

theorem removeJointByIDs_first_match_witness:
  "ordered (simJoints two_joints) \<and>
   simJoints two_joints = [] @ (1, joint_no 1) # [(2, joint_no 2)] \<and>
   attached_to 0 3 (joint_no 1) \<and> attached_to 0 3 (joint_no 2) \<and>
   simJoints (removeJointByIDs 0 3 two_joints) = [(2, joint_no 2)] \<and>
   \<not> attached_to 4 5 (joint_no 1) \<and> \<not> attached_to 4 5 (joint_no 2) \<and>
   simJoints (removeJointByIDs 4 5 two_joints) = simJoints two_joints"
proof -
  have ord: "ordered (simJoints two_joints)"
    by (simp add: two_joints_eval ordered_Cons keys_def)
  have split: "simJoints two_joints = [] @ (1, joint_no 1) # [(2, joint_no 2)]"
    by (simp add: two_joints_eval)
  have att: "attached_to 0 3 (joint_no 1)" "attached_to 0 3 (joint_no 2)"
    by (simp_all add: attached_to_def joint_no_def getNodeIndex1_def getNodeIndex2_def hinge_def)
  have natt: "\<not> attached_to 4 5 (joint_no 1)" "\<not> attached_to 4 5 (joint_no 2)"
    by (simp_all add: attached_to_def joint_no_def getNodeIndex1_def getNodeIndex2_def hinge_def)
  have none: "\<forall>e \<in> set (simJoints two_joints). \<not> attached_to 4 5 (snd e)"
    using natt by (simp add: two_joints_eval)
  have a: "simJoints (removeJointByIDs 0 3 two_joints) = [(2, joint_no 2)]"
    using removeJointByIDs_first_match [OF ord, of 0 3] split att(1) by fastforce
  have b: "simJoints (removeJointByIDs 4 5 two_joints) = simJoints two_joints"
    using removeJointByIDs_first_match [OF ord, of 4 5] none by blast
  show ?thesis
    using ord split att natt a b by simp
qed

section \<open>The value addJoint returns\<close>

text \<open>
  C9, as amended. A call of \<^verbatim>\<open>addJoint\<close> that returns, returns 0 unless the backend
  has created the joint: 0 for a refusal of the backend and 0 for the axis check (the
  only return before the backend is called), with nothing to tell the two apart, and
  with the counter and \<^verbatim>\<open>simJoints\<close> unchanged. When the backend has created the
  joint the call returns the value of the counter, which is now a key of
  \<^verbatim>\<open>simJoints\<close>. That id is at least 1, and 0 is not a key of \<^verbatim>\<open>simJoints\<close> before
  or after the call, as long as fewer than \<open>2 ^ 64 - 1\<close> joints have been created since
  the construction or the last \<^verbatim>\<open>clearAllJoints\<close>: after any calls without a
  \<^verbatim>\<open>clearAllJoints\<close> that start with the counter at 1 and \<^verbatim>\<open>simJoints\<close> empty and
  create fewer joints than that, the counter is not 0 and every key of \<^verbatim>\<open>simJoints\<close>
  is at least 1 and below the counter (whichever descriptor object the client then
  passes to \<^verbatim>\<open>addJoint\<close>). And whatever calls have returned since the
  construction, those after the last \<^verbatim>\<open>clearAllJoints\<close> are such calls: they start with
  the counter at 1 and \<^verbatim>\<open>simJoints\<close> empty.
\<close>

theorem addJoint_return_value:
  assumes "addJoint control p reload m = (Inr r, m')"
  shows "(PhysicsCreateJoint True \<notin> set (new_events m m') \<longrightarrow>
            r = 0 \<and> next_joint_id m' = next_joint_id m \<and> simJoints m' = simJoints m) \<and>
         (PhysicsCreateJoint False \<in> set (new_events m m') \<longrightarrow> r = 0) \<and>
         ((\<forall>ok. PhysicsCreateJoint ok \<notin> set (new_events m m')) \<longrightarrow>
            r = 0 \<and> (\<exists>d. deref p m = Some d \<and> squaredNorm (axis1 d) < EPSILON control \<and>
                        type d \<noteq> JOINT_TYPE_FIXED)) \<and>
         (PhysicsCreateJoint True \<in> set (new_events m m') \<longrightarrow>
            r = next_joint_id m \<and> next_joint_id m' = next_joint_id m + 1 \<and>
            r \<in> set (keys (simJoints m')) \<and>
            (next_joint_id m \<noteq> 0 \<longrightarrow>
               1 \<le> r \<and> (0 \<notin> set (keys (simJoints m)) \<longrightarrow> 0 \<notin> set (keys (simJoints m'))))) \<and>
         (\<forall>ops m0. clear_free ops \<and> run ops m0 = (Inr (), m) \<and> next_joint_id m0 = 1 \<and>
                   created m0 m < 2 ^ 64 - 1 \<longrightarrow> next_joint_id m \<noteq> 0) \<and>
         (\<forall>ops m0 d. clear_free ops \<and> run ops m0 = (Inr (), m\<lparr>caller_joint := d\<rparr>) \<and>
                   next_joint_id m0 = 1 \<and> simJoints m0 = [] \<and> created m0 m < 2 ^ 64 - 1 \<longrightarrow>
                   next_joint_id m \<noteq> 0 \<and> 0 \<notin> set (keys (simJoints m)) \<and>
                   (\<forall>k \<in> set (keys (simJoints m)). 1 \<le> k \<and> k < next_joint_id m) \<and>
                   (PhysicsCreateJoint True \<in> set (new_events m m') \<longrightarrow>
                      1 \<le> r \<and> 0 \<notin> set (keys (simJoints m')))) \<and>
         (\<forall>ops d0 d. run ops (JointManager d0) = (Inr (), m\<lparr>caller_joint := d\<rparr>) \<longrightarrow>
                   clear_free (since_clear ops) \<and>
                   (\<exists>m0. next_joint_id m0 = 1 \<and> simJoints m0 = [] \<and>
                         run (since_clear ops) m0 = (Inr (), m\<lparr>caller_joint := d\<rparr>)))"
proof -
  let ?E = "new_events m m'"
  obtain evs where evs: "trace m' = trace m @ evs"
    "next_joint_id m' = next_joint_id m + (if PhysicsCreateJoint True \<in> set evs then 1 else 0)"
    "r = (if PhysicsCreateJoint True \<in> set evs then next_joint_id m else 0)"
    using addJoint_summary [of control p reload m] assms by auto
  have E: "?E = evs"
    using evs(1) by simp
  have "\<exists>evs. trace m' = trace m @ evs \<and>
     (if PhysicsCreateJoint True \<in> set evs
      then \<exists>j. simJoints m' = map_assign (next_joint_id m) j (simJoints m)
      else simJoints m' = simJoints m) \<and>
     \<not> (PhysicsCreateJoint True \<in> set evs \<and> PhysicsCreateJoint False \<in> set evs) \<and>
     (PhysicsCreateJoint False \<notin> set evs \<and> PhysicsCreateJoint True \<notin> set evs \<longrightarrow>
           (\<exists>d. deref p m = Some d \<and> squaredNorm (axis1 d) < EPSILON control \<and>
                type d \<noteq> JOINT_TYPE_FIXED))"
    using addJoint_simJoints [of control p reload m] unfolding assms fst_conv snd_conv
    by blast
  then obtain evs' where evs': "trace m' = trace m @ evs'"
    "if PhysicsCreateJoint True \<in> set evs'
      then \<exists>j. simJoints m' = map_assign (next_joint_id m) j (simJoints m)
      else simJoints m' = simJoints m"
    "\<not> (PhysicsCreateJoint True \<in> set evs' \<and> PhysicsCreateJoint False \<in> set evs')"
    "PhysicsCreateJoint False \<notin> set evs' \<and> PhysicsCreateJoint True \<notin> set evs' \<longrightarrow>
           (\<exists>d. deref p m = Some d \<and> squaredNorm (axis1 d) < EPSILON control \<and>
                type d \<noteq> JOINT_TYPE_FIXED)"
    by blast
  have E': "evs' = ?E"
    using evs'(1) by simp
  note sj = evs'(2-4) [unfolded E']
  have failed: "r = 0 \<and> next_joint_id m' = next_joint_id m \<and> simJoints m' = simJoints m"
    if "PhysicsCreateJoint True \<notin> set ?E"
    using that evs(2,3) sj(1) by (simp add: E)
  have refused: "r = 0" if "PhysicsCreateJoint False \<in> set ?E"
    using that sj(2) failed by blast
  have early: "r = 0 \<and> (\<exists>d. deref p m = Some d \<and> squaredNorm (axis1 d) < EPSILON control \<and>
                        type d \<noteq> JOINT_TYPE_FIXED)"
    if "\<forall>ok. PhysicsCreateJoint ok \<notin> set ?E"
    using that sj(3) failed by blast
  have ok: "r = next_joint_id m \<and> next_joint_id m' = next_joint_id m + 1 \<and>
            r \<in> set (keys (simJoints m')) \<and>
            (next_joint_id m \<noteq> 0 \<longrightarrow>
               1 \<le> r \<and> (0 \<notin> set (keys (simJoints m)) \<longrightarrow> 0 \<notin> set (keys (simJoints m'))))"
    if t: "PhysicsCreateJoint True \<in> set ?E"
  proof -
    have r: "r = next_joint_id m" and n: "next_joint_id m' = next_joint_id m + 1"
      using t evs(2,3) by (simp_all add: E)
    obtain j where j: "simJoints m' = map_assign (next_joint_id m) j (simJoints m)"
      using t sj(1) by auto
    show ?thesis
      using r n by (auto simp: j keys_assign word_nonzero_ge_1)
  qed
  have start: "next_joint_id m \<noteq> 0"
    if "clear_free ops" "run ops m0 = (Inr (), m)" "next_joint_id m0 = 1"
      "created m0 m < 2 ^ 64 - 1" for ops m0
  proof -
    have "advances m0 m"
      using run_advances [OF that(1), of m0] by (simp add: that(2))
    then have "next_joint_id m = 1 + word_of_nat (created m0 m)"
      by (simp add: advances_def that(3))
    then show ?thesis
      using counter_nonzero [OF that(4)] by simp
  qed
  have range: "next_joint_id m \<noteq> 0 \<and> 0 \<notin> set (keys (simJoints m)) \<and>
       (\<forall>k \<in> set (keys (simJoints m)). 1 \<le> k \<and> k < next_joint_id m) \<and>
       (PhysicsCreateJoint True \<in> set ?E \<longrightarrow> 1 \<le> r \<and> 0 \<notin> set (keys (simJoints m')))"
    if "clear_free ops" "run ops m0 = (Inr (), m\<lparr>caller_joint := d\<rparr>)" "next_joint_id m0 = 1"
      "simJoints m0 = []" "created m0 m < 2 ^ 64 - 1" for ops m0 d
  proof -
    have few: "created m0 (m\<lparr>caller_joint := d\<rparr>) < 2 ^ 64 - 1"
      using that(5) by (simp add: created_def new_events_def)
    note f = fresh_keys_in_range [OF that(1-4) few, simplified]
    have z: "0 \<notin> set (keys (simJoints m))"
    proof
      assume "0 \<in> set (keys (simJoints m))"
      then have "(1 :: ulong) \<le> 0"
        using f(2) by blast
      then show False by simp
    qed
    show ?thesis
      using f z ok by blast
  qed
  have restart: "clear_free (since_clear ops) \<and>
       (\<exists>m0. next_joint_id m0 = 1 \<and> simJoints m0 = [] \<and>
             run (since_clear ops) m0 = (Inr (), m\<lparr>caller_joint := d\<rparr>))"
    if "run ops (JointManager d0) = (Inr (), m\<lparr>caller_joint := d\<rparr>)" for ops d0 d
    using run_since_clear [OF that] by (simp add: since_clear_free)
  show ?thesis
    using failed refused early ok start range restart by blast
qed

theorem addJoint_return_value_witness:
  "fst (addJoint (world True) Caller False one_joint) = Inr 2 \<and>
   PhysicsCreateJoint True \<in>
     set (new_events one_joint (snd (addJoint (world True) Caller False one_joint))) \<and>
   clear_free [AddJoint (world True) hinge False] \<and>
   run [AddJoint (world True) hinge False] (JointManager hinge) = (Inr (), one_joint) \<and>
   since_clear [AddJoint (world True) hinge False] = [AddJoint (world True) hinge False] \<and>
   next_joint_id (JointManager hinge) = 1 \<and>
   simJoints (JointManager hinge) = [] \<and>
   created (JointManager hinge) one_joint < 2 ^ 64 - 1 \<and>
   next_joint_id one_joint = 2 \<and>
   keys (simJoints one_joint) = [1] \<and>
   0 \<notin> set (keys (simJoints one_joint)) \<and>
   0 \<notin> set (keys (simJoints (snd (addJoint (world True) Caller False one_joint)))) \<and>
   (1 :: ulong) \<le> 2 \<and> (1 :: ulong) \<le> 1 \<and> (1 :: ulong) < 2 \<and>
   fst (addJoint (world False) Caller False (JointManager hinge)) = Inr 0 \<and>
   PhysicsCreateJoint False \<in>
     set (new_events (JointManager hinge)
            (snd (addJoint (world False) Caller False (JointManager hinge)))) \<and>
   fst (addJoint (world True) Caller False (JointManager (hinge\<lparr>axis1 := origin\<rparr>))) = Inr 0 \<and>
   new_events (JointManager (hinge\<lparr>axis1 := origin\<rparr>))
     (snd (addJoint (world True) Caller False (JointManager (hinge\<lparr>axis1 := origin\<rparr>)))) =
     [Lock, Unlock]"
proof -
  let ?c = "world True"
  let ?m0 = "JointManager hinge"
  obtain r2 m2 where created: "addJoint ?c Caller False one_joint = (Inr r2, m2)"
    and tr2: "trace m2 = trace one_joint @
       [Lock, Unlock, PhysicsCreateJoint True, Lock, Unlock, SceneHasChanged False]"
    by (simp add: one_joint_eval eval_defs)
  have ok: "PhysicsCreateJoint True \<in> set (new_events one_joint m2)"
    by (simp add: tr2)
  have free: "clear_free [AddJoint ?c hinge False]"
    by simp
  have first: "addJoint ?c Caller False ?m0 = (Inr 1, one_joint)"
    by (cases "addJoint ?c Caller False ?m0") (simp add: one_joint_def eval_defs)
  have run: "run [AddJoint ?c hinge False] ?m0 = (Inr (), one_joint)"
    using first by (simp add: JointManager_def)
  have start: "next_joint_id ?m0 = 1"
    by (simp add: JointManager_def)
  have empty: "simJoints ?m0 = []"
    by (simp add: JointManager_def)
  have few: "created ?m0 one_joint < 2 ^ 64 - 1"
    by (simp add: created_def new_events_def one_joint_eval JointManager_def)
  have ks: "keys (simJoints one_joint) = [1]"
    by (simp add: one_joint_eval keys_def)
  obtain r3 m3 where refused: "addJoint (world False) Caller False ?m0 = (Inr r3, m3)"
    and tr3: "trace m3 = trace ?m0 @ [Lock, Unlock, PhysicsCreateJoint False]"
    by (simp add: eval_defs)
  have no: "PhysicsCreateJoint False \<in> set (new_events ?m0 m3)"
    by (simp add: tr3)
  let ?mz = "JointManager (hinge\<lparr>axis1 := origin\<rparr>)"
  obtain r4 m4 where axis: "addJoint ?c Caller False ?mz = (Inr r4, m4)"
    and tr4: "trace m4 = trace ?mz @ [Lock, Unlock]"
    by (simp add: eval_defs)
  have none: "\<forall>ok. PhysicsCreateJoint ok \<notin> set (new_events ?mz m4)"
    by (simp add: tr4)
  have run': "run [AddJoint ?c hinge False] ?m0 =
      (Inr (), one_joint\<lparr>caller_joint := caller_joint one_joint\<rparr>)"
    using run by simp
  have reached: "next_joint_id one_joint \<noteq> 0 \<and> 0 \<notin> set (keys (simJoints one_joint)) \<and>
      (\<forall>k \<in> set (keys (simJoints one_joint)). 1 \<le> k \<and> k < next_joint_id one_joint) \<and>
      1 \<le> r2 \<and> 0 \<notin> set (keys (simJoints m2))"
    using addJoint_return_value [OF created] free run' start empty few ok by blast
  have restart: "clear_free (since_clear [AddJoint ?c hinge False])"
    using addJoint_return_value [OF created] run' by blast
  have r2: "r2 = next_joint_id one_joint"
    using addJoint_return_value [OF created] ok by blast
  have r3: "r3 = 0"
    using addJoint_return_value [OF refused] no by blast
  have r4: "r4 = 0"
    using addJoint_return_value [OF axis] none by blast
  show ?thesis
    using r2 r3 r4 reached restart created ok free run start empty few ks refused no axis tr4
    by (simp add: one_joint_eval)
qed

text \<open>
  The claim as stated fails when the counter has wrapped around to 0: after
  \<open>2 ^ 64 - 1\<close> rounds of creating a joint and removing it on a new manager, the next
  successful \<^verbatim>\<open>addJoint\<close> returns 0, the value of a failure, and stores its joint
  under the key 0.
\<close>

theorem addJoint_return_value_counterexample:
  "simJoints (churn 18446744073709551615 (world True) (JointManager weld)) = [] \<and>
   fst (addJoint (world True) Caller True
          (churn 18446744073709551615 (world True) (JointManager weld))) = Inr 0 \<and>
   PhysicsCreateJoint True \<in>
     set (new_events
            (churn 18446744073709551615 (world True) (JointManager weld))
            (snd (addJoint (world True) Caller True
               (churn 18446744073709551615 (world True) (JointManager weld))))) \<and>
   map_find 0 (simJoints (snd (addJoint (world True) Caller True
      (churn 18446744073709551615 (world True) (JointManager weld))))) \<noteq> None"
proof -
  let ?c = "world True"
  let ?m = "churn 18446744073709551615 ?c (JointManager weld)"
  have w: "type (caller_joint (JointManager weld)) = JOINT_TYPE_FIXED"
    "anchorPos (caller_joint (JointManager weld)) = ANCHOR_CUSTOM"
    "simJoints (JointManager weld) = []"
    by (simp_all add: JointManager_def weld_def)
  have m: "next_joint_id ?m = 0"
    "type (caller_joint ?m) = JOINT_TYPE_FIXED" "anchorPos (caller_joint ?m) = ANCHOR_CUSTOM"
    "simJoints ?m = []"
    using weld_churn [OF w, of 18446744073709551615] by (simp_all add: JointManager_def)
  show ?thesis
    using weld_step(1,5,6) [OF m(2,3)] by (simp add: m(1,4))
qed

section \<open>Reloading through pointers into the template map\<close>

text \<open>
  C10. \<^verbatim>\<open>reloadJoints\<close> hands \<^verbatim>\<open>addJoint\<close> the address of each stored template,
  with \<^verbatim>\<open>reload = true\<close>. The map keeps its keys and its number of entries, and
  nothing but the index and the anchor of a template can change. In the iteration for
  a key \<open>k\<close>, reached after the iterations for the keys before it, a successful
  \<^verbatim>\<open>addJoint\<close> leaves under \<open>k\<close> the template with its anchor replaced by the
  resolved anchor and its index replaced by the id just assigned, and that same value
  is the snapshot of the new record in \<^verbatim>\<open>simJoints\<close>.
\<close>

theorem reloadJoints_in_place:
  "keys (simJointsReload (snd (reloadJoints control m))) = keys (simJointsReload m) \<and>
   length (simJointsReload (snd (reloadJoints control m))) = length (simJointsReload m) \<and>
   map (\<lambda>(k, d). (k, unresolved d)) (simJointsReload (snd (reloadJoints control m))) =
     map (\<lambda>(k, d). (k, unresolved d)) (simJointsReload m) \<and>
   (\<forall>ks1 k ks2 m1 t r m2.
      keys (simJointsReload m) = ks1 @ k # ks2 \<and>
      reload_loop control ks1 m = (Inr (), m1) \<and>
      map_find k (simJointsReload m1) = Some t \<and>
      addJoint control (Template k) True m1 = (Inr r, m2) \<and>
      PhysicsCreateJoint True \<in> set (new_events m1 m2) \<longrightarrow>
      reloadJoints control m = reload_loop control ks2 m2 \<and>
      r = next_joint_id m1 \<and>
      keys (simJointsReload m2) = keys (simJointsReload m1) \<and>
      (\<exists>an. resolve_anchor t (getSimNode control (nodeIndex1 t))
               (getSimNode control (nodeIndex2 t)) = Inr an \<and>
            map_find k (simJointsReload m2) = Some (t\<lparr>anchor := an, index := r\<rparr>) \<and>
            map_find r (simJoints m2) =
              Some \<lparr>sJoint = t\<lparr>anchor := an, index := r\<rparr>,
                    attached1 = getSimNode control (nodeIndex1 t),
                    attached2 = getSimNode control (nodeIndex2 t)\<rparr>))"
proof (intro conjI allI impI)
  show k: "keys (simJointsReload (snd (reloadJoints control m))) = keys (simJointsReload m)"
    by (simp add: reloadJoints_def reload_loop_keys)
  show "length (simJointsReload (snd (reloadJoints control m))) = length (simJointsReload m)"
    using arg_cong [OF k, of length] by (simp add: keys_def)
  show "map (\<lambda>(k, d). (k, unresolved d)) (simJointsReload (snd (reloadJoints control m))) =
     map (\<lambda>(k, d). (k, unresolved d)) (simJointsReload m)"
    by (simp add: reloadJoints_def reload_loop_unresolved)
next
  fix ks1 k ks2 m1 t r m2
  assume a: "keys (simJointsReload m) = ks1 @ k # ks2 \<and>
      reload_loop control ks1 m = (Inr (), m1) \<and>
      map_find k (simJointsReload m1) = Some t \<and>
      addJoint control (Template k) True m1 = (Inr r, m2) \<and>
      PhysicsCreateJoint True \<in> set (new_events m1 m2)"
  then show "reloadJoints control m = reload_loop control ks2 m2"
    by (simp add: reloadJoints_def reload_loop_append)
  from a have step: "addJoint control (Template k) True m1 = (Inr r, m2)"
    by simp
  show "keys (simJointsReload m2) = keys (simJointsReload m1)"
    using keys_addJoint_reload [of control "Template k" m1] by (simp add: step)
  from a addJoint_replay_success [of k m1 t control r m2]
  show "r = next_joint_id m1" by auto
  from a addJoint_replay_success [of k m1 t control r m2]
  show "\<exists>an. resolve_anchor t (getSimNode control (nodeIndex1 t))
               (getSimNode control (nodeIndex2 t)) = Inr an \<and>
            map_find k (simJointsReload m2) = Some (t\<lparr>anchor := an, index := r\<rparr>) \<and>
            map_find r (simJoints m2) =
              Some \<lparr>sJoint = t\<lparr>anchor := an, index := r\<rparr>,
                    attached1 = getSimNode control (nodeIndex1 t),
                    attached2 = getSimNode control (nodeIndex2 t)\<rparr>"
    by auto
qed

theorem reloadJoints_in_place_witness:
  "keys (simJointsReload cleared) = [1] @ 7 # [] \<and>
   reload_loop (world True) [1] cleared = (Inr (), replayed_first) \<and>
   map_find 7 (simJointsReload replayed_first) = Some hinge \<and>
   fst (addJoint (world True) (Template 7) True replayed_first) = Inr 2 \<and>
   PhysicsCreateJoint True \<in>
     set (new_events replayed_first (snd (addJoint (world True) (Template 7) True replayed_first))) \<and>
   map_find 7 (simJointsReload (snd (addJoint (world True) (Template 7) True replayed_first))) =
     Some (hinge\<lparr>anchor := position body3, index := 2\<rparr>) \<and>
   keys (simJointsReload (snd (reloadJoints (world True) cleared))) = [1, 7]"
proof -
  let ?c = "world True"
  obtain r m2 where call: "addJoint ?c (Template 7) True replayed_first = (r, m2)"
    by (cases "addJoint ?c (Template 7) True replayed_first")
  have r: "r = Inr 2"
    using call by (simp add: replayed_first_eval eval_defs)
  have ks: "keys (simJointsReload cleared) = [1] @ 7 # []"
    by (simp add: cleared_eval keys_def)
  have pre: "reload_loop ?c [1] cleared = (Inr (), replayed_first)"
    by (simp add: replayed_first_eval)
  have t: "map_find 7 (simJointsReload replayed_first) = Some hinge"
    by (simp add: replayed_first_eval)
  have ev: "PhysicsCreateJoint True \<in> set (new_events replayed_first m2)"
    using call by (simp add: replayed_first_eval eval_defs) auto
  have res: "resolve_anchor hinge (getSimNode ?c (nodeIndex1 hinge))
      (getSimNode ?c (nodeIndex2 hinge)) = Inr (position body3)"
    by (simp add: resolve_anchor_def hinge_def world_def getPosition_def)
  from reloadJoints_in_place [of ?c cleared] ks pre t call r ev
  have "\<exists>an. resolve_anchor hinge (getSimNode ?c (nodeIndex1 hinge))
               (getSimNode ?c (nodeIndex2 hinge)) = Inr an \<and>
            map_find 7 (simJointsReload m2) = Some (hinge\<lparr>anchor := an, index := 2\<rparr>)"
    by blast
  then have tmpl: "map_find 7 (simJointsReload m2) = Some (hinge\<lparr>anchor := position body3, index := 2\<rparr>)"
    using res by auto
  have keys': "keys (simJointsReload (snd (reloadJoints ?c cleared))) = [1, 7]"
    using reloadJoints_in_place [of ?c cleared] ks by simp
  show ?thesis
    using ks pre t call r ev tmpl keys' by simp
qed

end
